theory Spec2Isabelle
  imports Main
begin

section \<open>Values, errors and observable effects\<close>

text \<open>
  The store is a JavaScript program: values are dynamically typed, property reads on
  \<open>undefined\<close> throw, and functions are objects compared by identity. The embedding keeps
  these three things explicit.

  \<^item> \<open>jsval\<close> is the universe of data values (state trees, payloads, results).
  \<^item> A function object is known by its identity, a \<open>ref\<close>; what it does when called is
    given by the environment (\<open>env\<close>, below), so that two references to the same function
    are equal and two different closures are not.
  \<^item> A JavaScript call either returns or throws: \<open>'a completion\<close>.
  \<^item> A promise is described by how it eventually settles, and at which logical instant.
\<close>

type_synonym ref = nat

type_synonym path = "string list"

datatype js_error = TypeError | Error string

datatype 'a completion = Return 'a | Throw js_error

datatype 'v settled = Pending | Fulfilled nat 'v | Rejected nat 'v

datatype jsval =
    Undefined
  | Null
  | Boolean bool
  | Number int
  | Str string
  | Arr "jsval list"
  | Obj "(string \<times> jsval) list"
  | PromiseV "jsval settled"

text \<open>A mutation or action descriptor \<open>{ type, payload }\<close>, as handed to subscribers.\<close>

type_synonym descriptor = "jsval \<times> jsval"

text \<open>
  The context object handed to an action handler. Its \<open>dispatch\<close>, \<open>commit\<close> and
  \<open>getters\<close> members are closures over the store, the namespace and the path; the record
  keeps what they close over, and the two state values read when the object is built.
\<close>

record action_context =
  ctx_namespace :: string
  ctx_path :: path
  ctx_state :: jsval
  ctx_rootState :: jsval

datatype hook = Before | After | OnError

text \<open>
  What the engine does that an observer outside can see: console output, and every call
  it makes to a function supplied by the application, with the arguments it passes
  (and, for an action handler, the value the call returned).
\<close>

datatype event =
    ConsoleError string
  | ConsoleWarn string
  | ConsoleErrorObj js_error
  | CallMutation ref jsval jsval
  | CallAction ref action_context jsval
  | ActionReturned ref jsval
  | CallSubscriber ref descriptor jsval
  | CallActionSubscriber hook ref descriptor jsval "jsval option"
  | CallPlugin ref

text \<open>
  A computation over a mutable object of type \<open>'s\<close>: it reads and updates the object,
  appends to the trace of events, and completes by returning or throwing. When it throws,
  the updates and events made so far remain, as in JavaScript.
\<close>

type_synonym ('s, 'a) run = "'s \<times> event list \<Rightarrow> 'a completion \<times> 's \<times> event list"

definition ret :: "'a \<Rightarrow> ('s, 'a) run" where
  "ret x w = (Return x, w)"

definition throw :: "js_error \<Rightarrow> ('s, 'a) run" where
  "throw e w = (Throw e, w)"

definition andThen :: "('s, 'a) run \<Rightarrow> ('a \<Rightarrow> ('s, 'b) run) \<Rightarrow> ('s, 'b) run" where
  "andThen m f w = (case m w of (Return x, w') \<Rightarrow> f x w' | (Throw e, w') \<Rightarrow> (Throw e, w'))"

definition emit :: "event \<Rightarrow> ('s, unit) run" where
  "emit ev w = (Return (), fst w, snd w @ [ev])"

definition lift :: "'a completion \<Rightarrow> ('s, 'a) run" where
  "lift c w = (c, w)"

definition modify :: "('s \<Rightarrow> 's) \<Rightarrow> ('s, unit) run" where
  "modify f w = (Return (), f (fst w), snd w)"

definition whenever :: "bool \<Rightarrow> ('s, unit) run \<Rightarrow> ('s, unit) run" where
  "whenever b m = (if b then m else ret ())"

text \<open>\<open>list.forEach(f)\<close>: the elements in order; a throw ends the iteration.\<close>

primrec forEach :: "('a \<Rightarrow> ('s, unit) run) \<Rightarrow> 'a list \<Rightarrow> ('s, unit) run" where
  "forEach f [] = ret ()"
| "forEach f (x # xs) = andThen (f x) (\<lambda>_. forEach f xs)"

subsection \<open>util.js\<close>

text \<open>\<open>isObject(obj)\<close>: \<open>obj !== null && typeof obj === 'object'\<close>.\<close>

fun isObject :: "jsval \<Rightarrow> bool" where
  "isObject (Arr _) = True"
| "isObject (Obj _) = True"
| "isObject (PromiseV _) = True"
| "isObject _ = False"

text \<open>
  \<open>isPromise(val)\<close>: \<open>val && typeof val.then === 'function'\<close>. Functions are not data
  values of the model, so the only value with a callable \<open>then\<close> is a promise.
\<close>

fun isPromise :: "jsval \<Rightarrow> bool" where
  "isPromise (PromiseV _) = True"
| "isPromise _ = False"

text \<open>JavaScript truthiness, as tested by \<open>if (x)\<close>, \<open>x && y\<close> and \<open>!x\<close>.\<close>

fun truthy :: "jsval \<Rightarrow> bool" where
  "truthy Undefined = False"
| "truthy Null = False"
| "truthy (Boolean b) = b"
| "truthy (Number n) = (n \<noteq> 0)"
| "truthy (Str s) = (s \<noteq> [])"
| "truthy _ = True"

text \<open>The \<open>typeof\<close> operator on data values.\<close>

fun typeof :: "jsval \<Rightarrow> string" where
  "typeof Undefined = ''undefined''"
| "typeof (Boolean _) = ''boolean''"
| "typeof (Number _) = ''number''"
| "typeof (Str _) = ''string''"
| "typeof _ = ''object''"

text \<open>\<open>assert(condition, msg)\<close>: \<open>if (!condition) throw new Error(`[vuex] ${msg}`)\<close>.\<close>

definition assert :: "bool \<Rightarrow> string \<Rightarrow> unit completion" where
  "assert condition msg = (if \<not> condition then Throw (Error (''[vuex] '' @ msg)) else Return ())"

text \<open>A name between double or single quotes, as the diagnostics print it.\<close>

definition dquoted :: "string \<Rightarrow> string" where
  "dquoted s = [CHR 0x22] @ s @ [CHR 0x22]"

definition quoted :: "string \<Rightarrow> string" where
  "quoted s = [CHR 0x27] @ s @ [CHR 0x27]"

section \<open>module/module.js and module/module-collection.js\<close>

text \<open>
  An action is declared as a function or as \<open>{ handler, root }\<close>; the spec's design notes
  name the two shapes \<open>Plain(fn)\<close> and \<open>WithOptions(fn, root)\<close>.
\<close>

datatype action_def = Plain ref | WithOptions ref bool

fun action_root :: "action_def \<Rightarrow> bool" where
  "action_root (Plain f) = False"
| "action_root (WithOptions f r) = r"

fun action_handler :: "action_def \<Rightarrow> ref" where
  "action_handler (Plain f) = f"
| "action_handler (WithOptions f r) = f"

text \<open>
  The module configuration object of the public interface. Its members are objects keyed
  by name; they are association lists in enumeration order, since \<open>forEachValue\<close> visits
  \<open>Object.keys\<close> in order and that order decides the order of registration.
\<close>

datatype rawModule =
  RawModule
    (raw_namespaced: bool)
    (raw_state: jsval)
    (raw_mutations: "(string \<times> ref) list")
    (raw_actions: "(string \<times> action_def) list")
    (raw_getters: "(string \<times> ref) list")
    (raw_modules: "(string \<times> rawModule) list")

text \<open>
  Modelled from the spec: class \<open>Module\<close> of \<open>module/module.js\<close>, which is not among the
  sources. The spec gives a module as
  \<open>{ rawConfig, runtime: bool, state, children: map<key, Module>, context }\<close>, owned by its
  parent, with \<open>runtime = false\<close> for modules present at construction. The sources that
  use it enumerate \<open>module._children\<close> with \<open>Object.keys\<close> and read \<open>module.state\<close>,
  \<open>module.namespaced\<close> and \<open>module.runtime\<close>, and call the methods below. The local
  context is determined by the module's path and namespace, so it is not stored.
\<close>

datatype module =
  Module
    (rawModule: rawModule)
    (runtime: bool)
    (state: jsval)
    (children: "(string \<times> module) list")

definition newModule :: "rawModule \<Rightarrow> bool \<Rightarrow> module" where
  "newModule raw rt = Module raw rt (raw_state raw) []"

definition namespaced :: "module \<Rightarrow> bool" where
  "namespaced m = raw_namespaced (rawModule m)"

definition getChild :: "string \<Rightarrow> module \<Rightarrow> module option" where
  "getChild key m = map_of (children m) key"

definition hasChild :: "string \<Rightarrow> module \<Rightarrow> bool" where
  "hasChild key m = (key \<in> set (map fst (children m)))"

text \<open>
  The keys of an object are enumerated with the array indices first, in ascending order,
  and the other keys after them in the order of their creation. An array index is the
  decimal numeral, without leading zeros, of a number below 4294967295. An object
  is kept as the list of its members in that order.
\<close>

fun digitValue :: "char \<Rightarrow> int option" where
  "digitValue c =
     map_of [(CHR ''0'', 0), (CHR ''1'', 1), (CHR ''2'', 2), (CHR ''3'', 3), (CHR ''4'', 4),
             (CHR ''5'', 5), (CHR ''6'', 6), (CHR ''7'', 7), (CHR ''8'', 8), (CHR ''9'', 9)] c"

fun decimal :: "int \<Rightarrow> string \<Rightarrow> int option" where
  "decimal n [] = Some n"
| "decimal n (c # cs) =
     (case digitValue c of None \<Rightarrow> None | Some d \<Rightarrow> decimal (10 * n + d) cs)"

fun arrayIndex :: "string \<Rightarrow> int option" where
  "arrayIndex key =
     (if key = [] \<or> (hd key = CHR ''0'' \<and> length key > 1) then None
      else (case decimal 0 key of
              None \<Rightarrow> None
            | Some n \<Rightarrow> if n < 4294967295 then Some n else None))"

fun precedes :: "string \<Rightarrow> string \<Rightarrow> bool" where
  "precedes key k =
     (case arrayIndex key of
        None \<Rightarrow> False
      | Some n \<Rightarrow> (case arrayIndex k of None \<Rightarrow> True | Some m \<Rightarrow> n < m))"

text \<open>
  Assignment to a property: an existing key keeps its place and a new key takes the place
  the enumeration gives it, which is the last place unless it is an array index.
\<close>

fun assign :: "string \<Rightarrow> 'v \<Rightarrow> (string \<times> 'v) list \<Rightarrow> (string \<times> 'v) list" where
  "assign key v [] = [(key, v)]"
| "assign key v ((k, x) # rest) =
     (if k = key then (k, v) # rest
      else if precedes key k \<and> key \<notin> set (map fst rest) then (key, v) # (k, x) # rest
      else (k, x) # assign key v rest)"

definition addChild :: "string \<Rightarrow> module \<Rightarrow> module \<Rightarrow> module" where
  "addChild key c m = Module (rawModule m) (runtime m) (state m) (assign key c (children m))"

definition removeChild :: "string \<Rightarrow> module \<Rightarrow> module" where
  "removeChild key m =
     Module (rawModule m) (runtime m) (state m) (filter (\<lambda>kv. fst kv \<noteq> key) (children m))"

text \<open>
  \<open>path[path.length - 1]\<close> used as a property name. On the empty path the expression is
  \<open>undefined\<close>, and a property lookup converts its key to the string \<open>"undefined"\<close>.
\<close>

definition lastKey :: "path \<Rightarrow> string" where
  "lastKey p = (if p = [] then ''undefined'' else last p)"

text \<open>
  Modules are objects reached by reference from the root: a method called on the module
  at a path changes the tree there.
\<close>

fun modifyAt :: "path \<Rightarrow> (module \<Rightarrow> module) \<Rightarrow> module \<Rightarrow> module" where
  "modifyAt [] f m = f m"
| "modifyAt (key # rest) f m =
     (case getChild key m of
        None \<Rightarrow> m
      | Some c \<Rightarrow> addChild key (modifyAt rest f c) m)"

record ModuleCollection =
  root :: "module option"

text \<open>
  \<open>get(path)\<close>: \<open>path.reduce((module, key) => module.getChild(key), this.root)\<close>. A missing
  child is \<open>undefined\<close>; calling \<open>getChild\<close> on it at the next key throws.
\<close>

fun get_reduce :: "module option \<Rightarrow> path \<Rightarrow> module option completion" where
  "get_reduce m [] = Return m"
| "get_reduce m (key # rest) =
     (case m of
        None \<Rightarrow> Throw TypeError
      | Some md \<Rightarrow> get_reduce (getChild key md) rest)"

definition get :: "ModuleCollection \<Rightarrow> path \<Rightarrow> module option completion" where
  "get c p = get_reduce (root c) p"

text \<open>
  \<open>getNamespace(path)\<close>: the reduction carries the namespace, and the variable \<open>module\<close>
  steps down the tree beside it. Reading \<open>namespaced\<close> of a missing child throws.
\<close>

fun getNamespace_reduce :: "module option \<Rightarrow> string \<Rightarrow> path \<Rightarrow> string completion" where
  "getNamespace_reduce m ns [] = Return ns"
| "getNamespace_reduce m ns (key # rest) =
     (case m of
        None \<Rightarrow> Throw TypeError
      | Some md \<Rightarrow>
          (case getChild key md of
             None \<Rightarrow> Throw TypeError
           | Some c \<Rightarrow>
               getNamespace_reduce (Some c)
                 (ns @ (if namespaced c then key @ ''/'' else '''')) rest))"

definition getNamespace :: "ModuleCollection \<Rightarrow> path \<Rightarrow> string completion" where
  "getNamespace c p = getNamespace_reduce (root c) '''' p"

text \<open>
  \<open>register(path, rawModule, runtime)\<close>. The development-mode \<open>assertRawModule\<close> checks that
  getters and mutations are functions and actions are functions or objects with a
  \<open>handler\<close> function; the types of \<open>rawModule\<close> admit nothing else.
\<close>

fun register :: "path \<Rightarrow> rawModule \<Rightarrow> bool \<Rightarrow> (ModuleCollection, unit) run"
  and register_modules :: "path \<Rightarrow> (string \<times> rawModule) list \<Rightarrow> bool \<Rightarrow> (ModuleCollection, unit) run"
where
  "register p (RawModule n s ms as gs subs) rt =
     andThen
       (if p = [] then modify (\<lambda>c. c\<lparr>root := Some (newModule (RawModule n s ms as gs subs) rt)\<rparr>)
        else
          (\<lambda>w. andThen (lift (get (fst w) (butlast p)))
             (\<lambda>parent. case parent of
                None \<Rightarrow> throw TypeError
              | Some _ \<Rightarrow>
                  modify (\<lambda>c. c\<lparr>root :=
                    map_option
                      (modifyAt (butlast p)
                         (addChild (lastKey p) (newModule (RawModule n s ms as gs subs) rt)))
                      (root c)\<rparr>)) w))
       (\<lambda>_. register_modules p subs rt)"
| "register_modules p [] rt = ret ()"
| "register_modules p ((key, rawChildModule) # rest) rt =
     andThen (register (p @ [key]) rawChildModule rt) (\<lambda>_. register_modules p rest rt)"

text \<open>The constructor registers the root configuration with \<open>runtime = false\<close>.\<close>

definition new_ModuleCollection :: "rawModule \<Rightarrow> (ModuleCollection, unit) run" where
  "new_ModuleCollection rawRootModule = register [] rawRootModule False"

text \<open>\<open>unregister(path)\<close>; \<open>dev\<close> is the build flag \<open>__DEV__\<close>.\<close>

definition unregister :: "bool \<Rightarrow> path \<Rightarrow> (ModuleCollection, unit) run" where
  "unregister dev p =
     (\<lambda>w. andThen (lift (get (fst w) (butlast p)))
        (\<lambda>parent. case parent of
           None \<Rightarrow> throw TypeError
         | Some par \<Rightarrow>
             (case getChild (lastKey p) par of
                None \<Rightarrow>
                  whenever dev
                    (emit (ConsoleWarn (''[vuex] trying to unregister module '' @ quoted (lastKey p)
                       @ '', which is not registered'')))
              | Some child \<Rightarrow>
                  if \<not> runtime child then ret ()
                  else modify (\<lambda>c. c\<lparr>root :=
                         map_option (modifyAt (butlast p) (removeChild (lastKey p))) (root c)\<rparr>))) w)"

text \<open>\<open>isRegistered(path)\<close>.\<close>

definition isRegistered :: "ModuleCollection \<Rightarrow> path \<Rightarrow> bool completion" where
  "isRegistered c p =
     (case get c (butlast p) of
        Throw e \<Rightarrow> Throw e
      | Return parent \<Rightarrow>
          (case parent of
             Some par \<Rightarrow> Return (hasChild (lastKey p) par)
           | None \<Rightarrow> Return False))"

section \<open>The store and its environment\<close>

text \<open>
  The three routing tables hold closures made by \<open>registerMutation\<close>, \<open>registerAction\<close>
  and \<open>registerGetter\<close>. Each closes over the raw handler and the module's local context,
  and the local context closes over the namespace and the path: a closure is kept as
  these three.
\<close>

datatype wrapped = Wrapped (handler: ref) (local_namespace: string) (local_path: path)

text \<open>
  An action subscriber is an object \<open>{ before, after, error }\<close>. \<open>indexOf\<close> compares
  objects by identity, so the list holds identities and the store keeps the members of
  each object beside it. An object is either passed in by the caller or allocated by the
  store; the two can never be the same object.
\<close>

datatype obj_id = Given nat | Allocated nat

record hooks =
  before :: "ref option"
  after :: "ref option"
  error :: "ref option"

text \<open>
  The fields of class \<open>Store\<close>, without the leading underscore of the private ones.
  \<open>state_data\<close> is \<open>_state.data\<close>; \<open>devtoolHook\<close> says whether \<open>_devtoolHook\<close> is set;
  \<open>objects\<close> and \<open>allocated\<close> are the subscriber objects and the count of those the
  store has created. The effect scope and the reactive wrapper belong to the host
  framework and carry no data of their own.

  \<open>_actions\<close> is an object whose members are arrays, and an array is an object of its
  own: \<open>registerAction\<close> pushes onto it in place, and \<open>resetStore\<close>, which gives the store
  a new \<open>_actions\<close>, leaves the arrays of the old one as they are. A \<open>dispatch\<close> that is
  under way still holds the array it read before. So \<open>actions\<close> is the object the store
  holds now, and \<open>replacedActions\<close> are the objects it held before, oldest first, each as
  it was when it was replaced: nothing writes to them afterwards.
\<close>

record store =
  committing :: bool
  actions :: "string \<rightharpoonup> wrapped list"
  actionSubscribers :: "obj_id list"
  mutations :: "string \<rightharpoonup> wrapped list"
  wrappedGetters :: "string \<rightharpoonup> wrapped"
  modules :: ModuleCollection
  modulesNamespaceMap :: "string \<rightharpoonup> path"
  subscribers :: "ref list"
  makeLocalGettersCache :: "string \<rightharpoonup> (string \<rightharpoonup> string)"
  strict :: bool
  devtoolHook :: bool
  getters :: "string \<rightharpoonup> wrapped"
  state_data :: jsval
  objects :: "obj_id \<rightharpoonup> hooks"
  allocated :: nat
  replacedActions :: "(string \<rightharpoonup> wrapped list) list"

text \<open>
  A reference to an array of handlers: the \<open>_actions\<close> object it was created in, counted
  from the first one of the store, and its key there. A key of \<open>_actions\<close> is assigned once,
  by \<open>registerAction\<close>, and never deleted, so the two name one array for good.
  \<open>actionsAt\<close> is the expression \<open>this._actions[type]\<close>, and \<open>elements\<close> reads the array
  behind a reference as it stands in a given store (empty when there is none).
\<close>

type_synonym array_ref = "nat \<times> string"

definition actionsAt :: "store \<Rightarrow> string \<Rightarrow> array_ref option" where
  "actionsAt st type =
     (case actions st type of
        None \<Rightarrow> None
      | Some entry \<Rightarrow> Some (length (replacedActions st), type))"

definition elements :: "store \<Rightarrow> array_ref \<Rightarrow> wrapped list" where
  "elements st r =
     (case (if fst r < length (replacedActions st) then (replacedActions st ! fst r) (snd r)
            else if fst r = length (replacedActions st) then actions st (snd r)
            else None) of
        None \<Rightarrow> []
      | Some entry \<Rightarrow> entry)"

text \<open>
  What the program takes from outside. \<open>DEV\<close> is the build constant \<open>__DEV__\<close>. The
  \<open>host_\<close> members stand for the language's built-in behaviour: what a value that is not
  a plain object answers (arrays, promises, primitives), what a plain object inherits
  from its prototype under a key that is not its own, and the conversion of a non-string
  to a string. The \<open>_fn\<close> members give the behaviour of the application's functions: each may
  read and change the store it is given, and returns or throws.
\<close>

record env =
  DEV :: bool
  host_get :: "jsval \<Rightarrow> string \<Rightarrow> jsval"
  host_has :: "jsval \<Rightarrow> string \<Rightarrow> bool"
  host_set :: "jsval \<Rightarrow> string \<Rightarrow> jsval \<Rightarrow> jsval completion"
  host_delete :: "jsval \<Rightarrow> string \<Rightarrow> jsval completion"
  host_toString :: "jsval \<Rightarrow> string"
  mutation_fn :: "ref \<Rightarrow> jsval \<Rightarrow> jsval \<Rightarrow> store \<Rightarrow> unit completion \<times> store"
  action_fn :: "ref \<Rightarrow> action_context \<Rightarrow> jsval \<Rightarrow> store \<Rightarrow> jsval completion \<times> store"
  subscriber_fn :: "ref \<Rightarrow> descriptor \<Rightarrow> jsval \<Rightarrow> store \<Rightarrow> unit completion \<times> store"
  action_subscriber_fn ::
    "ref \<Rightarrow> descriptor \<Rightarrow> jsval \<Rightarrow> jsval option \<Rightarrow> store \<Rightarrow> unit completion \<times> store"
  plugin_fn :: "ref \<Rightarrow> store \<Rightarrow> unit completion \<times> store"

text \<open>Calling an application function on the store.\<close>

definition call :: "(store \<Rightarrow> 'a completion \<times> store) \<Rightarrow> (store, 'a) run" where
  "call f w = (case f (fst w) of (c, st) \<Rightarrow> (c, st, snd w))"

text \<open>\<open>try { m } catch (e) { h(e) }\<close>.\<close>

definition tryCatch :: "('s, unit) run \<Rightarrow> (js_error \<Rightarrow> ('s, unit) run) \<Rightarrow> ('s, unit) run" where
  "tryCatch m h w = (case m w of (Throw e, w') \<Rightarrow> h e w' | (Return x, w') \<Rightarrow> (Return x, w'))"

text \<open>A method of a member object, run on that member.\<close>

definition focus :: "('s \<Rightarrow> 't) \<Rightarrow> ('t \<Rightarrow> 's \<Rightarrow> 's) \<Rightarrow> ('t, 'a) run \<Rightarrow> ('s, 'a) run" where
  "focus rd wr m w = (case m (rd (fst w), snd w) of (c, t, evs) \<Rightarrow> (c, wr t (fst w), evs))"

subsection \<open>Property access\<close>

text \<open>
  \<open>v[key]\<close>. On \<open>undefined\<close> and \<open>null\<close> it throws; a plain object gives its own member,
  and under a key it does not have what it inherits from its prototype, which is the
  host's to say; any other value answers as the host says.
\<close>

fun getProp :: "env \<Rightarrow> jsval \<Rightarrow> string \<Rightarrow> jsval completion" where
  "getProp E Undefined key = Throw TypeError"
| "getProp E Null key = Throw TypeError"
| "getProp E (Obj kvs) key =
     Return (case map_of kvs key of None \<Rightarrow> host_get E (Obj kvs) key | Some v \<Rightarrow> v)"
| "getProp E v key = Return (host_get E v key)"

text \<open>
  \<open>key in v\<close>: throws unless \<open>v\<close> is an object. A plain object has its own keys and those
  it inherits.
\<close>

fun hasProp :: "env \<Rightarrow> jsval \<Rightarrow> string \<Rightarrow> bool completion" where
  "hasProp E (Obj kvs) key = Return (key \<in> set (map fst kvs) \<or> host_has E (Obj kvs) key)"
| "hasProp E (Arr xs) key = Return (host_has E (Arr xs) key)"
| "hasProp E (PromiseV p) key = Return (host_has E (PromiseV p) key)"
| "hasProp E v key = Throw TypeError"

text \<open>\<open>v[key] = x\<close>, giving \<open>v\<close> as it is afterwards.\<close>

fun setProp :: "env \<Rightarrow> jsval \<Rightarrow> string \<Rightarrow> jsval \<Rightarrow> jsval completion" where
  "setProp E Undefined key x = Throw TypeError"
| "setProp E Null key x = Throw TypeError"
| "setProp E (Obj kvs) key x = Return (Obj (assign key x kvs))"
| "setProp E v key x = host_set E v key x"

text \<open>\<open>delete v[key]\<close>, giving \<open>v\<close> as it is afterwards.\<close>

fun deleteProp :: "env \<Rightarrow> jsval \<Rightarrow> string \<Rightarrow> jsval completion" where
  "deleteProp E Undefined key = Throw TypeError"
| "deleteProp E Null key = Throw TypeError"
| "deleteProp E (Obj kvs) key = Return (Obj (filter (\<lambda>kv. fst kv \<noteq> key) kvs))"
| "deleteProp E v key = host_delete E v key"

text \<open>A value used as a property name or inside a template string.\<close>

fun toString :: "env \<Rightarrow> jsval \<Rightarrow> string" where
  "toString E (Str s) = s"
| "toString E v = host_toString E v"

text \<open>\<open>path.join(sep)\<close>.\<close>

fun join :: "string \<Rightarrow> string list \<Rightarrow> string" where
  "join sep [] = []"
| "join sep [x] = x"
| "join sep (x # y # rest) = x @ sep @ join sep (y # rest)"

section \<open>store-util.js\<close>

text \<open>
  \<open>getNestedState(state, path)\<close>: \<open>path.reduce((state, key) => state[key], state)\<close>.
\<close>

fun getNestedState :: "env \<Rightarrow> jsval \<Rightarrow> path \<Rightarrow> jsval completion" where
  "getNestedState E st [] = Return st"
| "getNestedState E st (key # rest) =
     (case getProp E st key of
        Throw e \<Rightarrow> Throw e
      | Return v \<Rightarrow> getNestedState E v rest)"

text \<open>
  The source takes \<open>getNestedState(state, path)\<close> and then changes the object it got, which
  is part of the state tree. \<open>changeNested\<close> is that change seen from the root: the object
  at the path is replaced by what \<open>f\<close> makes of it, and its ancestors hold the new member.
\<close>

fun changeNested :: "env \<Rightarrow> path \<Rightarrow> (jsval \<Rightarrow> jsval completion) \<Rightarrow> jsval \<Rightarrow> jsval completion" where
  "changeNested E [] f st = f st"
| "changeNested E (key # rest) f st =
     (case getProp E st key of
        Throw e \<Rightarrow> Throw e
      | Return v \<Rightarrow>
          (case changeNested E rest f v of
             Throw e \<Rightarrow> Throw e
           | Return v' \<Rightarrow> setProp E st key v'))"

text \<open>\<open>unifyObjectStyle(type, payload, options)\<close>.\<close>

definition unifyObjectStyle :: "env \<Rightarrow> jsval \<Rightarrow> jsval \<Rightarrow> jsval \<Rightarrow> (jsval \<times> jsval \<times> jsval) completion" where
  "unifyObjectStyle E type payload options =
     (case (if isObject type then getProp E type ''type'' else Return Undefined) of
        Throw e \<Rightarrow> Throw e
      | Return tt \<Rightarrow>
          (let (type', payload', options') =
                 (if isObject type \<and> truthy tt then (tt, type, payload)
                  else (type, payload, options))
           in case (if DEV E
                    then assert (typeof type' = ''string'')
                           (''expects string as the type, but found '' @ typeof type' @ ''.'')
                    else Return ())
              of Throw e \<Rightarrow> Throw e
               | Return _ \<Rightarrow> Return (type', payload', options')))"

text \<open>\<open>options && options.name\<close> as a condition.\<close>

definition option_set :: "env \<Rightarrow> jsval \<Rightarrow> string \<Rightarrow> bool" where
  "option_set E options name =
     (truthy options \<and> (case getProp E options name of Return v \<Rightarrow> truthy v | Throw e \<Rightarrow> False))"

text \<open>
  \<open>genericSubscribe(fn, subs, options)\<close> changes the list \<open>subs\<close> and returns a closure over
  \<open>fn\<close> and \<open>subs\<close>. The first definition is the change to the list; the second is what a
  call of the returned closure does to it (\<open>indexOf\<close>, then \<open>splice(i, 1)\<close>).
\<close>

definition genericSubscribe :: "env \<Rightarrow> 'a \<Rightarrow> 'a list \<Rightarrow> jsval \<Rightarrow> 'a list" where
  "genericSubscribe E fn subs options =
     (if fn \<notin> set subs
      then (if option_set E options ''prepend'' then fn # subs else subs @ [fn])
      else subs)"

definition genericUnsubscribe :: "'a \<Rightarrow> 'a list \<Rightarrow> 'a list" where
  "genericUnsubscribe fn subs = (if fn \<in> set subs then remove1 fn subs else subs)"

text \<open>
  \<open>_withCommit(fn)\<close>. The flag is not restored when \<open>fn\<close> throws. \<open>installModule\<close> works
  on the store and on the object \<open>rootState\<close> at once, so the method is stated for any
  object that has the store as a part.
\<close>

definition withCommit_in :: "('s \<Rightarrow> store) \<Rightarrow> (store \<Rightarrow> 's \<Rightarrow> 's) \<Rightarrow> ('s, unit) run \<Rightarrow> ('s, unit) run" where
  "withCommit_in rd wr fn =
     (\<lambda>w. let old = committing (rd (fst w)) in
        andThen (modify (\<lambda>s. wr ((rd s)\<lparr>committing := True\<rparr>) s))
          (\<lambda>_. andThen fn
            (\<lambda>_. modify (\<lambda>s. wr ((rd s)\<lparr>committing := old\<rparr>) s))) w)"

definition withCommit :: "(store, unit) run \<Rightarrow> (store, unit) run" where
  "withCommit fn = withCommit_in (\<lambda>s. s) (\<lambda>s _. s) fn"

text \<open>
  \<open>makeLocalGetters(store, namespace)\<close>: the cached projection of \<open>store.getters\<close> on the
  keys that begin with the namespace, each read through to the global key.
\<close>

definition makeLocalGetters :: "string \<Rightarrow> (store, string \<rightharpoonup> string) run" where
  "makeLocalGetters namespace =
     (\<lambda>w. andThen
        (whenever (makeLocalGettersCache (fst w) namespace = None)
           (modify (\<lambda>st. st\<lparr>makeLocalGettersCache := (makeLocalGettersCache st)(namespace \<mapsto>
              (\<lambda>localType. if getters st (namespace @ localType) = None then None
                            else Some (namespace @ localType)))\<rparr>)))
        (\<lambda>_ w'. ret (case makeLocalGettersCache (fst w') namespace of
                        None \<Rightarrow> Map.empty | Some proxy \<Rightarrow> proxy) w') w)"

text \<open>\<open>registerMutation(store, type, handler, local)\<close>.\<close>

definition registerMutation :: "string \<Rightarrow> ref \<Rightarrow> string \<times> path \<Rightarrow> (store, unit) run" where
  "registerMutation type h local =
     modify (\<lambda>st. st\<lparr>mutations := (mutations st)(type \<mapsto>
       (case mutations st type of None \<Rightarrow> [] | Some entry \<Rightarrow> entry)
         @ [Wrapped h (fst local) (snd local)])\<rparr>)"

text \<open>
  The closure \<open>wrappedMutationHandler(payload)\<close>: \<open>handler.call(store, local.state, payload)\<close>,
  where reading \<open>local.state\<close> is \<open>getNestedState(store.state, path)\<close>.
\<close>

definition wrappedMutationHandler :: "env \<Rightarrow> wrapped \<Rightarrow> jsval \<Rightarrow> (store, unit) run" where
  "wrappedMutationHandler E wh payload =
     (\<lambda>w. andThen (lift (getNestedState E (state_data (fst w)) (local_path wh)))
        (\<lambda>localState.
           andThen (emit (CallMutation (handler wh) localState payload))
             (\<lambda>_. call (mutation_fn E (handler wh) localState payload))) w)"

text \<open>\<open>registerAction(store, type, handler, local)\<close>.\<close>

definition registerAction :: "string \<Rightarrow> ref \<Rightarrow> string \<times> path \<Rightarrow> (store, unit) run" where
  "registerAction type h local =
     modify (\<lambda>st. st\<lparr>actions := (actions st)(type \<mapsto>
       (case actions st type of None \<Rightarrow> [] | Some entry \<Rightarrow> entry)
         @ [Wrapped h (fst local) (snd local)])\<rparr>)"

text \<open>\<open>Promise.resolve(res)\<close> of a value that is not a promise: settled already.\<close>

definition Promise_resolve :: "jsval \<Rightarrow> jsval settled" where
  "Promise_resolve res = Fulfilled 0 res"

text \<open>
  \<open>if (!isPromise(res)) res = Promise.resolve(res)\<close>: the promise the closure returns.
\<close>

definition normalized :: "jsval \<Rightarrow> jsval settled" where
  "normalized res =
     (if \<not> isPromise res then Promise_resolve res
      else (case res of PromiseV p \<Rightarrow> p | _ \<Rightarrow> Pending))"

text \<open>\<open>res.catch(err => { ...; throw err })\<close>: a promise that settles as \<open>res\<close> does.\<close>

definition catch_rethrow :: "jsval settled \<Rightarrow> jsval settled" where
  "catch_rethrow p =
     (case p of Pending \<Rightarrow> Pending | Fulfilled t v \<Rightarrow> Fulfilled t v | Rejected t err \<Rightarrow> Rejected t err)"

text \<open>
  The closure \<open>wrappedActionHandler(payload)\<close>. The context object is built member by
  member: \<open>local.getters\<close> (which fills the cache of a namespaced module), then
  \<open>local.state\<close>, then the root members. With a devtool hook the promise is passed through
  \<open>catch\<close> with a handler that rethrows, which settles as the promise itself does.
\<close>

definition wrappedActionHandler :: "env \<Rightarrow> wrapped \<Rightarrow> jsval \<Rightarrow> (store, jsval settled) run" where
  "wrappedActionHandler E wh payload =
     andThen (if local_namespace wh = [] then ret Map.empty
              else makeLocalGetters (local_namespace wh))
       (\<lambda>_ w. andThen (lift (getNestedState E (state_data (fst w)) (local_path wh)))
          (\<lambda>localState.
             let ctx = \<lparr>ctx_namespace = local_namespace wh, ctx_path = local_path wh,
                        ctx_state = localState, ctx_rootState = state_data (fst w)\<rparr>
             in andThen (emit (CallAction (handler wh) ctx payload))
                  (\<lambda>_. andThen (call (action_fn E (handler wh) ctx payload))
                    (\<lambda>res. andThen (emit (ActionReturned (handler wh) res))
                      (\<lambda>_ w'. ret (if devtoolHook (fst w') then catch_rethrow (normalized res)
                                    else normalized res) w')))) w)"

text \<open>\<open>registerGetter(store, type, rawGetter, local)\<close>.\<close>

definition registerGetter :: "env \<Rightarrow> string \<Rightarrow> ref \<Rightarrow> string \<times> path \<Rightarrow> (store, unit) run" where
  "registerGetter E type rawGetter local =
     (\<lambda>w. if wrappedGetters (fst w) type \<noteq> None
        then whenever (DEV E) (emit (ConsoleError (''[vuex] duplicate getter key: '' @ type))) w
        else modify (\<lambda>st. st\<lparr>wrappedGetters := (wrappedGetters st)(type \<mapsto>
               Wrapped rawGetter (fst local) (snd local))\<rparr>) w)"

text \<open>
  \<open>installModule(store, rootState, path, module, hot)\<close>. The computation works on the
  pair of the store and the object \<open>rootState\<close>, which the caller passes and the function
  extends in place. \<open>module.context = makeLocalContext(store, namespace, path)\<close> stores
  nothing new: the context is the namespace and the path.
\<close>

definition inStore :: "(store, 'a) run \<Rightarrow> (store \<times> jsval, 'a) run" where
  "inStore m = focus fst (\<lambda>st sr. (st, snd sr)) m"

definition setModuleState :: "env \<Rightarrow> path \<Rightarrow> jsval \<Rightarrow> (store \<times> jsval, unit) run" where
  "setModuleState E p moduleState =
     (\<lambda>w. andThen (lift (getNestedState E (snd (fst w)) (butlast p)))
        (\<lambda>parentState.
           withCommit_in fst (\<lambda>st sr. (st, snd sr))
             (andThen
                (whenever (DEV E)
                   (andThen (lift (hasProp E parentState (lastKey p)))
                      (\<lambda>present. whenever present
                         (emit (ConsoleWarn (''[vuex] state field '' @ dquoted (lastKey p)
                            @ '' was overridden by a module with the same name at ''
                            @ dquoted (join ''.'' p)))))))
                (\<lambda>_ w'. andThen
                   (lift (changeNested E (butlast p)
                      (\<lambda>ps. setProp E ps (lastKey p) moduleState) (snd (fst w'))))
                   (\<lambda>rootState'. modify (\<lambda>sr. (fst sr, rootState'))) w'))) w)"

fun installModule :: "env \<Rightarrow> path \<Rightarrow> module \<Rightarrow> bool \<Rightarrow> (store \<times> jsval, unit) run"
  and installChildren :: "env \<Rightarrow> path \<Rightarrow> (string \<times> module) list \<Rightarrow> bool \<Rightarrow> (store \<times> jsval, unit) run"
where
  "installModule E p (Module raw rt s cs) hot =
     (\<lambda>w. andThen (lift (getNamespace (modules (fst (fst w))) p))
        (\<lambda>namespace.
           andThen
             (whenever (namespaced (Module raw rt s cs))
                (\<lambda>w'. andThen
                   (whenever (modulesNamespaceMap (fst (fst w')) namespace \<noteq> None \<and> DEV E)
                      (emit (ConsoleError (''[vuex] duplicate namespace '' @ namespace
                         @ '' for the namespaced module '' @ join ''/'' p))))
                   (\<lambda>_. inStore (modify (\<lambda>st. st\<lparr>modulesNamespaceMap :=
                           (modulesNamespaceMap st)(namespace \<mapsto> p)\<rparr>))) w'))
          (\<lambda>_. andThen
             (whenever (p \<noteq> [] \<and> \<not> hot) (setModuleState E p (state (Module raw rt s cs))))
          (\<lambda>_. andThen
             (inStore (forEach
                (\<lambda>(key, mutation). registerMutation (namespace @ key) mutation (namespace, p))
                (raw_mutations raw)))
          (\<lambda>_. andThen
             (inStore (forEach
                (\<lambda>(key, action).
                   registerAction (if action_root action then key else namespace @ key)
                     (action_handler action) (namespace, p))
                (raw_actions raw)))
          (\<lambda>_. andThen
             (inStore (forEach
                (\<lambda>(key, getter). registerGetter E (namespace @ key) getter (namespace, p))
                (raw_getters raw)))
          (\<lambda>_. installChildren E p cs hot)))))) w)"
| "installChildren E p [] hot = ret ()"
| "installChildren E p ((key, child) # rest) hot =
     andThen (installModule E (p @ [key]) child hot) (\<lambda>_. installChildren E p rest hot)"

text \<open>
  The two ways \<open>rootState\<close> is passed: as \<open>this.state\<close>, the object the store already holds,
  so that every change to it is a change to the store's state; or as an object the store
  does not hold yet, which the caller keeps using afterwards.
\<close>

definition onStoreState :: "(store \<times> jsval, 'a) run \<Rightarrow> (store, 'a) run" where
  "onStoreState m = focus (\<lambda>st. (st, state_data st)) (\<lambda>sr _. (fst sr)\<lparr>state_data := snd sr\<rparr>) m"

definition onObject :: "jsval \<Rightarrow> (store \<times> jsval, unit) run \<Rightarrow> (store, jsval) run" where
  "onObject obj m w =
     (case m ((fst w, obj), snd w) of
        (Return _, sr, evs) \<Rightarrow> (Return (snd sr), fst sr, evs)
      | (Throw e, sr, evs) \<Rightarrow> (Throw e, fst sr, evs))"

text \<open>
  \<open>resetStoreState(store, state, hot)\<close>: the public getters are rebuilt from the wrapped
  getters, the local getter cache is emptied, and \<open>state\<close> becomes the reactive root.
  Strict mode adds a watcher of the host framework; \<open>hot\<close> clears the \<open>data\<close> member of the
  wrapper that is being replaced, which the store no longer holds.
\<close>

definition resetStoreState :: "jsval \<Rightarrow> bool \<Rightarrow> (store, unit) run" where
  "resetStoreState st_obj hot =
     modify (\<lambda>st. st\<lparr>getters := wrappedGetters st,
                      makeLocalGettersCache := Map.empty,
                      state_data := st_obj\<rparr>)"

text \<open>
  \<open>resetStore(store, hot)\<close>. The four tables are new objects; the \<open>_actions\<close> that is
  replaced is kept for the calls that still hold one of its arrays.
\<close>

definition resetStore :: "env \<Rightarrow> bool \<Rightarrow> (store, unit) run" where
  "resetStore E hot =
     andThen
       (modify (\<lambda>st. st\<lparr>replacedActions := replacedActions st @ [actions st],
                        actions := Map.empty, mutations := Map.empty,
                        wrappedGetters := Map.empty, modulesNamespaceMap := Map.empty\<rparr>))
       (\<lambda>_. andThen
          (onStoreState (\<lambda>w.
             (case root (modules (fst (fst w))) of
                None \<Rightarrow> throw TypeError
              | Some m \<Rightarrow> installModule E [] m True) w))
          (\<lambda>_ w. resetStoreState (state_data (fst w)) hot w))"

section \<open>store.js\<close>

text \<open>
  The options of \<open>createStore\<close>: the root module configuration with \<open>plugins\<close> and
  \<open>strict\<close> beside it.
\<close>

record store_options =
  opt_root :: rawModule
  opt_plugins :: "ref list"
  opt_strict :: bool

text \<open>The fields as the constructor first assigns them.\<close>

definition emptyStore :: "bool \<Rightarrow> store" where
  "emptyStore s =
     \<lparr>committing = False, actions = Map.empty, actionSubscribers = [],
      mutations = Map.empty, wrappedGetters = Map.empty, modules = \<lparr>root = None\<rparr>,
      modulesNamespaceMap = Map.empty, subscribers = [], makeLocalGettersCache = Map.empty,
      strict = s, devtoolHook = False, getters = Map.empty, state_data = Undefined,
      objects = Map.empty, allocated = 0, replacedActions = []\<rparr>"

definition Store_constructor :: "env \<Rightarrow> store_options \<Rightarrow> (store, unit) run" where
  "Store_constructor E options =
     andThen (modify (\<lambda>_. emptyStore (opt_strict options)))
       (\<lambda>_. andThen
          (focus modules (\<lambda>c st. st\<lparr>modules := c\<rparr>) (new_ModuleCollection (opt_root options)))
       (\<lambda>_ w.
          (case root (modules (fst w)) of
             None \<Rightarrow> throw TypeError
           | Some m \<Rightarrow>
               andThen (onObject (state m) (installModule E [] m False))
                 (\<lambda>st_obj. andThen (resetStoreState st_obj False)
                    (\<lambda>_. forEach
                       (\<lambda>plugin. andThen (emit (CallPlugin plugin))
                          (\<lambda>_. call (plugin_fn E plugin)))
                       (opt_plugins options)))) w))"

definition createStore :: "env \<Rightarrow> store_options \<Rightarrow> unit completion \<times> store \<times> event list" where
  "createStore E options = Store_constructor E options (emptyStore False, [])"

text \<open>The getter \<open>state\<close>: \<open>this._state.data\<close>.\<close>

definition Store_state :: "store \<Rightarrow> jsval" where
  "Store_state st = state_data st"

text \<open>\<open>commit(_type, _payload, _options)\<close>.\<close>

definition commitIterator :: "env \<Rightarrow> jsval \<Rightarrow> wrapped \<Rightarrow> (store, unit) run" where
  "commitIterator E payload h = wrappedMutationHandler E h payload"

definition notifySubscriber :: "env \<Rightarrow> descriptor \<Rightarrow> ref \<Rightarrow> (store, unit) run" where
  "notifySubscriber E mutation sub =
     (\<lambda>w. andThen (emit (CallSubscriber sub mutation (Store_state (fst w))))
        (\<lambda>_. call (subscriber_fn E sub mutation (Store_state (fst w)))) w)"

definition commit :: "env \<Rightarrow> jsval \<Rightarrow> jsval \<Rightarrow> jsval \<Rightarrow> (store, unit) run" where
  "commit E type0 payload0 options0 =
     andThen (lift (unifyObjectStyle E type0 payload0 options0))
       (\<lambda>(type, payload, options) w.
          (case mutations (fst w) (toString E type) of
             None \<Rightarrow>
               whenever (DEV E)
                 (emit (ConsoleError (''[vuex] unknown mutation type: '' @ toString E type)))
           | Some entry \<Rightarrow>
               andThen (withCommit (forEach (commitIterator E payload) entry))
                 (\<lambda>_ w'. andThen
                    (forEach (notifySubscriber E (type, payload)) (subscribers (fst w')))
                    (\<lambda>_. whenever (DEV E \<and> option_set E options ''silent'')
                       (emit (ConsoleWarn (''[vuex] mutation type: '' @ toString E type
                          @ ''. Silent option has been removed. ''
                          @ ''Use the filter functionality in the vue-devtools'')))) w')) w)"

text \<open>
  \<open>Promise.all(promises)\<close>: rejected as soon as one of them is, with the reason of the
  earliest (the first in the list among those of one instant); fulfilled once all are,
  with their values in the order of the list; pending otherwise.
\<close>

fun first_rejection :: "jsval settled list \<Rightarrow> (nat \<times> jsval) option" where
  "first_rejection [] = None"
| "first_rejection (Rejected t err # ps) =
     (case first_rejection ps of
        None \<Rightarrow> Some (t, err)
      | Some (t', err') \<Rightarrow> if t' < t then Some (t', err') else Some (t, err))"
| "first_rejection (p # ps) = first_rejection ps"

fun all_fulfilled :: "jsval settled list \<Rightarrow> (nat \<times> jsval list) option" where
  "all_fulfilled [] = Some (0, [])"
| "all_fulfilled (Fulfilled t v # ps) =
     (case all_fulfilled ps of
        None \<Rightarrow> None
      | Some (t', vs) \<Rightarrow> Some (max t t', v # vs))"
| "all_fulfilled (p # ps) = None"

definition Promise_all :: "jsval settled list \<Rightarrow> jsval settled" where
  "Promise_all ps =
     (case first_rejection ps of
        Some (t, err) \<Rightarrow> Rejected t err
      | None \<Rightarrow>
          (case all_fulfilled ps of
             Some (t, vs) \<Rightarrow> Fulfilled t (Arr vs)
           | None \<Rightarrow> Pending))"

text \<open>\<open>list.map(f)\<close> where \<open>f\<close> has effects.\<close>

primrec mapRun :: "('a \<Rightarrow> ('s, 'b) run) \<Rightarrow> 'a list \<Rightarrow> ('s, 'b list) run" where
  "mapRun f [] = ret []"
| "mapRun f (x # xs) = andThen (f x) (\<lambda>y. andThen (mapRun f xs) (\<lambda>ys. ret (y # ys)))"

text \<open>
  The action subscribers that have a given member, in the order of the list:
  \<open>this._actionSubscribers.filter(sub => sub.before)\<close> and its two siblings.
\<close>

fun hookOf :: "hook \<Rightarrow> hooks \<Rightarrow> ref option" where
  "hookOf Before h = before h"
| "hookOf After h = after h"
| "hookOf OnError h = error h"

definition subscribersWith :: "hook \<Rightarrow> store \<Rightarrow> ref list" where
  "subscribersWith k st =
     List.map_filter
       (\<lambda>sub. case objects st sub of None \<Rightarrow> None | Some h \<Rightarrow> hookOf k h)
       (actionSubscribers st)"

definition notifyActionSubscriber ::
  "env \<Rightarrow> hook \<Rightarrow> descriptor \<Rightarrow> jsval option \<Rightarrow> ref \<Rightarrow> (store, unit) run" where
  "notifyActionSubscriber E k action err f =
     (\<lambda>w. andThen (emit (CallActionSubscriber k f action (Store_state (fst w)) err))
        (\<lambda>_. call (action_subscriber_fn E f action (Store_state (fst w)) err)) w)"

definition hookName :: "hook \<Rightarrow> string" where
  "hookName k = (case k of Before \<Rightarrow> ''before'' | After \<Rightarrow> ''after'' | OnError \<Rightarrow> ''error'')"

text \<open>One of the three guarded notification loops of \<open>dispatch\<close>.\<close>

definition notifyActionSubscribers ::
  "env \<Rightarrow> hook \<Rightarrow> descriptor \<Rightarrow> jsval option \<Rightarrow> (store, unit) run" where
  "notifyActionSubscribers E k action err =
     tryCatch
       (\<lambda>w. forEach (notifyActionSubscriber E k action err) (subscribersWith k (fst w)) w)
       (\<lambda>e. whenever (DEV E)
          (andThen
             (emit (ConsoleWarn (''[vuex] error in '' @ hookName k @ '' action subscribers: '')))
             (\<lambda>_. emit (ConsoleErrorObj e))))"

text \<open>
  \<open>dispatch(_type, _payload)\<close>, up to the \<open>return\<close>. The value returned for a known type
  is the new promise, which settles as \<open>result\<close> does; what its two callbacks do at that
  moment is \<open>dispatch_settled\<close>.

  \<open>entry\<close> is read before the \<open>before\<close> subscribers run and used after them, and it is
  the array itself: what a subscriber has pushed onto it meanwhile, by registering a
  module, is there when \<open>entry.length\<close> is tested. \<open>entry.map\<close> fixes its range when it
  starts and nothing removes or overwrites an element, so the handlers called are the
  elements at that moment.
\<close>

definition dispatch :: "env \<Rightarrow> jsval \<Rightarrow> jsval \<Rightarrow> (store, jsval) run" where
  "dispatch E type0 payload0 =
     andThen (lift (unifyObjectStyle E type0 payload0 Undefined))
       (\<lambda>(type, payload, options) w.
          (case actionsAt (fst w) (toString E type) of
             None \<Rightarrow>
               andThen
                 (whenever (DEV E)
                    (emit (ConsoleError (''[vuex] unknown action type: '' @ toString E type))))
                 (\<lambda>_. ret Undefined)
           | Some entry \<Rightarrow>
               andThen (notifyActionSubscribers E Before (type, payload) None)
                 (\<lambda>_. andThen
                    (\<lambda>w1.
                       (if length (elements (fst w1) entry) > 1
                        then andThen
                               (mapRun (\<lambda>h. wrappedActionHandler E h payload)
                                  (elements (fst w1) entry))
                               (\<lambda>results. ret (Promise_all results))
                        else (case elements (fst w1) entry of
                                [] \<Rightarrow> throw TypeError
                              | h # _ \<Rightarrow> wrappedActionHandler E h payload)) w1)
                    (\<lambda>result. ret (PromiseV result)))) w)"

definition dispatch_settled :: "env \<Rightarrow> descriptor \<Rightarrow> jsval settled \<Rightarrow> (store, unit) run" where
  "dispatch_settled E action result =
     (case result of
        Pending \<Rightarrow> ret ()
      | Fulfilled t res \<Rightarrow> notifyActionSubscribers E After action None
      | Rejected t err \<Rightarrow> notifyActionSubscribers E OnError action (Some err))"

text \<open>
  \<open>subscribe(fn, options)\<close> and the closure it returns. The closure is known by the
  function it removes.
\<close>

definition subscribe :: "env \<Rightarrow> ref \<Rightarrow> jsval \<Rightarrow> (store, ref) run" where
  "subscribe E fn options =
     andThen (modify (\<lambda>st. st\<lparr>subscribers := genericSubscribe E fn (subscribers st) options\<rparr>))
       (\<lambda>_. ret fn)"

definition unsubscribe :: "ref \<Rightarrow> (store, unit) run" where
  "unsubscribe fn = modify (\<lambda>st. st\<lparr>subscribers := genericUnsubscribe fn (subscribers st)\<rparr>)"

text \<open>
  \<open>subscribeAction(fn, options)\<close>. The argument is a function or an object with hooks;
  \<open>typeof fn === 'function' ? { before: fn } : fn\<close> makes a new object around a function
  each time it is evaluated.
\<close>

datatype subscriber_arg = Function ref | HooksObject nat hooks

definition subscribeAction :: "env \<Rightarrow> subscriber_arg \<Rightarrow> jsval \<Rightarrow> (store, obj_id) run" where
  "subscribeAction E fn options =
     (\<lambda>w. andThen
        (case fn of
           Function f \<Rightarrow>
             andThen
               (modify (\<lambda>st. st\<lparr>objects := (objects st)(Allocated (allocated st) \<mapsto>
                                   \<lparr>before = Some f, after = None, error = None\<rparr>),
                                allocated := Suc (allocated st)\<rparr>))
               (\<lambda>_. ret (Allocated (allocated (fst w))))
         | HooksObject n h \<Rightarrow>
             andThen (modify (\<lambda>st. st\<lparr>objects := (objects st)(Given n \<mapsto> h)\<rparr>))
               (\<lambda>_. ret (Given n)))
        (\<lambda>subs. andThen
           (modify (\<lambda>st. st\<lparr>actionSubscribers :=
              genericSubscribe E subs (actionSubscribers st) options\<rparr>))
           (\<lambda>_. ret subs)) w)"

definition unsubscribeAction :: "obj_id \<Rightarrow> (store, unit) run" where
  "unsubscribeAction subs =
     modify (\<lambda>st. st\<lparr>actionSubscribers := genericUnsubscribe subs (actionSubscribers st)\<rparr>)"

text \<open>\<open>replaceState(state)\<close>.\<close>

definition replaceState :: "jsval \<Rightarrow> (store, unit) run" where
  "replaceState st_obj = withCommit (modify (\<lambda>st. st\<lparr>state_data := st_obj\<rparr>))"

text \<open>A path argument: \<open>if (typeof path === 'string') path = [path]\<close>.\<close>

datatype path_arg = PathString string | PathArray path

fun pathOf :: "path_arg \<Rightarrow> path" where
  "pathOf (PathString s) = [s]"
| "pathOf (PathArray p) = p"


text \<open>\<open>unregisterModule(path)\<close>.\<close>

definition unregisterModule :: "env \<Rightarrow> path_arg \<Rightarrow> (store, unit) run" where
  "unregisterModule E path0 =
     (let p = pathOf path0
      in andThen (focus modules (\<lambda>c st. st\<lparr>modules := c\<rparr>) (unregister (DEV E) p))
        (\<lambda>_. andThen
           (withCommit (\<lambda>w.
              andThen
                (lift (changeNested E (butlast p)
                   (\<lambda>parentState. deleteProp E parentState (lastKey p)) (Store_state (fst w))))
                (\<lambda>st_obj. modify (\<lambda>st. st\<lparr>state_data := st_obj\<rparr>)) w))
        (\<lambda>_. resetStore E False)))"

text \<open>\<open>hasModule(path)\<close>.\<close>

definition hasModule :: "path_arg \<Rightarrow> store \<Rightarrow> bool completion" where
  "hasModule path0 st = isRegistered (modules st) (pathOf path0)"

section \<open>Reading a trace\<close>

text \<open>The action handlers called, and the values their calls returned, in order.\<close>

fun action_calls :: "event list \<Rightarrow> ref list" where
  "action_calls [] = []"
| "action_calls (CallAction f ctx payload # evs) = f # action_calls evs"
| "action_calls (ev # evs) = action_calls evs"

fun action_returns :: "event list \<Rightarrow> jsval list" where
  "action_returns [] = []"
| "action_returns (ActionReturned f res # evs) = res # action_returns evs"
| "action_returns (ev # evs) = action_returns evs"

section \<open>Namespaces and registration, as the specification words them\<close>

text \<open>
  The namespace of the module at a path below \<open>m\<close>: the concatenation of \<open>key + '/'\<close>
  for each module along the path that is flagged \<open>namespaced\<close>.
\<close>

fun namespace_along :: "module \<Rightarrow> path \<Rightarrow> string" where
  "namespace_along m [] = []"
| "namespace_along m (key # rest) =
     (case getChild key m of
        None \<Rightarrow> []
      | Some c \<Rightarrow> (if namespaced c then key @ ''/'' else []) @ namespace_along c rest)"

text \<open>
  Every key that module \<open>m\<close> declares is in the routing tables under the prefix \<open>N\<close>: each
  mutation and each action with the closure made for this module in the list of its
  type, an action declared \<open>root\<close> under its bare key, and each getter key present.
\<close>

definition registeredAt :: "store \<Rightarrow> string \<Rightarrow> path \<Rightarrow> module \<Rightarrow> bool" where
  "registeredAt st N p m =
     (list_all
        (\<lambda>(K, f). case mutations st (N @ K) of
                     None \<Rightarrow> False
                   | Some entry \<Rightarrow> Wrapped f N p \<in> set entry)
        (raw_mutations (rawModule m))
      \<and> list_all
        (\<lambda>(K, a). case actions st (if action_root a then K else N @ K) of
                     None \<Rightarrow> False
                   | Some entry \<Rightarrow> Wrapped (action_handler a) N p \<in> set entry)
        (raw_actions (rawModule m))
      \<and> list_all
        (\<lambda>(K, g). wrappedGetters st (N @ K) \<noteq> None)
        (raw_getters (rawModule m)))"

text \<open>
  The routing tables only grow during installation: a key that has handlers keeps them,
  a getter key stays, and the module tree is not touched.
\<close>

definition tables_grow :: "store \<Rightarrow> store \<Rightarrow> bool" where
  "tables_grow st st' =
     (modules st' = modules st
      \<and> (\<forall>k entry. mutations st k = Some entry \<longrightarrow>
            (\<exists>entry'. mutations st' k = Some entry' \<and> set entry \<subseteq> set entry'))
      \<and> (\<forall>k entry. actions st k = Some entry \<longrightarrow>
            (\<exists>entry'. actions st' k = Some entry' \<and> set entry \<subseteq> set entry'))
      \<and> (\<forall>k. wrappedGetters st k \<noteq> None \<longrightarrow> wrappedGetters st' k \<noteq> None))"

text \<open>
  The children of a module are the members of an object, so no key occurs twice among
  them. The association lists that \<open>register\<close> builds have this shape.
\<close>

fun keys_unique :: "module \<Rightarrow> bool"
  and children_keys_unique :: "(string \<times> module) list \<Rightarrow> bool"
where
  "keys_unique (Module raw rt s cs) = (distinct (map fst cs) \<and> children_keys_unique cs)"
| "children_keys_unique [] = True"
| "children_keys_unique ((key, c) # rest) = (keys_unique c \<and> children_keys_unique rest)"

section \<open>A shop\<close>

text \<open>
  An application to run the store on: a root module that counts, a namespaced module
  \<open>cart\<close> whose mutation \<open>add\<close> pushes the payload onto \<open>items\<close>, and a module \<open>user\<close>
  without namespace. The root and \<open>user\<close> both declare the action \<open>shared\<close>; the root
  also declares a mutation under the full name \<open>cart/add\<close>. Function 11 is \<open>add\<close>; action
  20 returns the plain value 42, every other action a promise fulfilled three instants
  later; the remaining functions change nothing.
\<close>

definition cart_add :: "jsval \<Rightarrow> jsval \<Rightarrow> jsval" where
  "cart_add payload s =
     (case s of
        Obj kvs \<Rightarrow>
          (case map_of kvs ''cart'' of
             Some (Obj cs) \<Rightarrow>
               (case map_of cs ''items'' of
                  Some (Arr xs) \<Rightarrow>
                    Obj (assign ''cart'' (Obj (assign ''items'' (Arr (xs @ [payload])) cs)) kvs)
                | _ \<Rightarrow> s)
           | _ \<Rightarrow> s)
      | _ \<Rightarrow> s)"

definition appEnv :: "bool \<Rightarrow> env" where
  "appEnv dev =
     \<lparr>DEV = dev,
      host_get = (\<lambda>v key. Undefined),
      host_has = (\<lambda>v key. False),
      host_set = (\<lambda>v key x. Return v),
      host_delete = (\<lambda>v key. Return v),
      host_toString = (\<lambda>v. ''[object Object]''),
      mutation_fn = (\<lambda>f localState payload st.
         (Return (), if f = 11 then st\<lparr>state_data := cart_add payload (state_data st)\<rparr> else st)),
      action_fn = (\<lambda>f ctx payload st.
         (Return (if f = 20 then Number 42 else PromiseV (Fulfilled 3 (Str ''done''))), st)),
      subscriber_fn = (\<lambda>f mutation s st. (Return (), st)),
      action_subscriber_fn = (\<lambda>f action s err st. (Return (), st)),
      plugin_fn = (\<lambda>f st. (Return (), st))\<rparr>"

definition cartModule :: rawModule where
  "cartModule =
     RawModule True (Obj [(''items'', Arr [])])
       [(''add'', 11)] [(''checkout'', WithOptions 22 True)] [(''size'', 31)] []"

definition userModule :: rawModule where
  "userModule =
     RawModule False (Obj [(''name'', Str ''ann'')])
       [] [(''shared'', Plain 21)] [] []"

definition shopRoot :: rawModule where
  "shopRoot =
     RawModule False (Obj [(''count'', Number 0)])
       [(''cart/add'', 12)] [(''shared'', Plain 20)] [(''total'', 30)]
       [(''cart'', cartModule), (''user'', userModule)]"

definition shopOptions :: store_options where
  "shopOptions = \<lparr>opt_root = shopRoot, opt_plugins = [], opt_strict = False\<rparr>"

text \<open>The store that \<open>createStore\<close> builds from these options (\<open>createStore_shop\<close> below).\<close>

definition shopCart :: module where
  "shopCart = Module cartModule False (Obj [(''items'', Arr [])]) []"

definition shopModules :: module where
  "shopModules =
     Module shopRoot False (Obj [(''count'', Number 0)])
       [(''cart'', shopCart),
        (''user'', Module userModule False (Obj [(''name'', Str ''ann'')]) [])]"

definition shop :: store where
  "shop =
     \<lparr>committing = False,
      actions = [''checkout'' \<mapsto> [Wrapped 22 ''cart/'' [''cart'']],
                 ''shared'' \<mapsto> [Wrapped 20 [] [], Wrapped 21 [] [''user'']]],
      actionSubscribers = [],
      mutations = [''cart/add'' \<mapsto> [Wrapped 12 [] [], Wrapped 11 ''cart/'' [''cart'']]],
      wrappedGetters = [''total'' \<mapsto> Wrapped 30 [] [],
                        ''cart/size'' \<mapsto> Wrapped 31 ''cart/'' [''cart'']],
      modules = \<lparr>root = Some shopModules\<rparr>,
      modulesNamespaceMap = [''cart/'' \<mapsto> [''cart'']],
      subscribers = [],
      makeLocalGettersCache = Map.empty,
      strict = False,
      devtoolHook = False,
      getters = [''total'' \<mapsto> Wrapped 30 [] [],
                 ''cart/size'' \<mapsto> Wrapped 31 ''cart/'' [''cart'']],
      state_data = Obj [(''count'', Number 0), (''cart'', Obj [(''items'', Arr [])]),
                        (''user'', Obj [(''name'', Str ''ann'')])],
      objects = Map.empty,
      allocated = 0,
      replacedActions = []\<rparr>"

text \<open>The shop with the tables emptied that \<open>installModule\<close> fills.\<close>

definition clearedShop :: store where
  "clearedShop =
     shop\<lparr>actions := Map.empty, mutations := Map.empty, wrappedGetters := Map.empty,
          modulesNamespaceMap := Map.empty\<rparr>"





text \<open>
  Two more configurations: one whose root also declares a getter under the key that the
  cart's getter \<open>size\<close> is given, and one with a module under the key \<open>undefined\<close>.
\<close>

definition clashOptions :: store_options where
  "clashOptions =
     \<lparr>opt_root =
        RawModule False (Obj []) [] [] [(''cart/size'', 32)] [(''cart'', cartModule)],
      opt_plugins = [], opt_strict = False\<rparr>"

definition oddOptions :: store_options where
  "oddOptions =
     \<lparr>opt_root = RawModule False (Obj []) [] [] [] [(''undefined'', userModule)],
      opt_plugins = [], opt_strict = False\<rparr>"

section \<open>Running computations\<close>

lemma andThen_ret [simp]: "andThen (ret x) f = f x"
  by (rule ext) (simp add: andThen_def ret_def)

lemma andThen_throw [simp]: "andThen (throw e) f = throw e"
  by (rule ext) (simp add: andThen_def throw_def)

lemma andThen_lift_Return [simp]: "andThen (lift (Return x)) f = f x"
  by (rule ext) (simp add: andThen_def lift_def)

lemma andThen_lift_Throw [simp]: "andThen (lift (Throw e)) f = throw e"
  by (rule ext) (simp add: andThen_def lift_def throw_def)

lemma andThen_modify [simp]: "andThen (modify g) f w = f () (g (fst w), snd w)"
  by (simp add: andThen_def modify_def)

lemma andThen_emit [simp]: "andThen (emit ev) f w = f () (fst w, snd w @ [ev])"
  by (simp add: andThen_def emit_def)

lemma whenever_simps [simp]: "whenever True m = m" "whenever False m = ret ()"
  by (simp_all add: whenever_def)

lemma ret_apply [simp]: "ret x w = (Return x, w)"
  by (simp add: ret_def)

lemma throw_apply [simp]: "throw e w = (Throw e, w)"
  by (simp add: throw_def)

lemma emit_apply [simp]: "emit ev w = (Return (), fst w, snd w @ [ev])"
  by (simp add: emit_def)

lemma modify_apply [simp]: "modify g w = (Return (), g (fst w), snd w)"
  by (simp add: modify_def)

lemma unifyObjectStyle_Str [simp]:
  "unifyObjectStyle E (Str T) payload options = Return (Str T, payload, options)"
  by (simp add: unifyObjectStyle_def assert_def)

text \<open>The definitions that a run on concrete data unfolds.\<close>

lemmas run_defs =
  andThen_def ret_def throw_def lift_def modify_def emit_def whenever_def focus_def
  call_def tryCatch_def onObject_def inStore_def onStoreState_def withCommit_def
  withCommit_in_def Let_def

lemmas install_defs =
  get_def getNamespace_def lastKey_def addChild_def getChild_def namespaced_def
  newModule_def registerMutation_def registerAction_def registerGetter_def
  setModuleState_def resetStoreState_def dquoted_def

lemmas create_defs =
  createStore_def Store_constructor_def emptyStore_def new_ModuleCollection_def

lemma appEnv_DEV [simp]: "DEV (appEnv dev) = dev"
  by (simp add: appEnv_def)

lemma appEnv_simps [simp]:
  "mutation_fn (appEnv dev) f ls payload st =
     (Return (), if f = 11 then st\<lparr>state_data := cart_add payload (state_data st)\<rparr> else st)"
  "action_fn (appEnv dev) f ctx payload st =
     (Return (if f = 20 then Number 42 else PromiseV (Fulfilled 3 (Str ''done''))), st)"
  "subscriber_fn (appEnv dev) f m s st = (Return (), st)"
  "action_subscriber_fn (appEnv dev) f a s err st = (Return (), st)"
  "host_get (appEnv dev) v key = Undefined"
  "host_has (appEnv dev) v key = False"
  by (simp_all add: appEnv_def)

lemma createStore_shop: "createStore (appEnv dev) shopOptions = (Return (), shop, [])"
  by (simp add: shop_def shopModules_def shopCart_def shopOptions_def shopRoot_def
      cartModule_def userModule_def run_defs install_defs create_defs)

section \<open>Replacing the state\<close>

text \<open>
  C7. For every state value \<open>s\<close>, \<open>replaceState(s)\<close> returns normally, leaves a store whose
  state reads back as \<open>s\<close>, and changes nothing else: the routing tables, the getters, the
  local getter cache, the module tree and the subscriber lists are those of before, the
  committing flag is back at its old value, and nothing is logged or called. So neither
  the installation of modules nor the reset of the derived values has run again.
\<close>

theorem replaceState_roundtrip:
  "replaceState s (st, evs) = (Return (), st\<lparr>state_data := s\<rparr>, evs)
   \<and> Store_state (fst (snd (replaceState s (st, evs)))) = s"
  by (simp add: replaceState_def withCommit_def withCommit_in_def Store_state_def)

section \<open>Unknown types\<close>

text \<open>
  C4, as the code has it. For a type string \<open>T\<close> without an entry in the mutation table,
  \<open>commit(T, payload, options)\<close> returns normally and leaves the whole store as it was,
  the state included, and calls no handler and no subscriber. The diagnostic is printed
  in a development build only: in a production build the trace is unchanged.
\<close>

theorem commit_unknown_type:
  "mutations st T = None \<Longrightarrow>
   commit E (Str T) payload options (st, evs) =
     (Return (), st,
      evs @ (if DEV E then [ConsoleError (''[vuex] unknown mutation type: '' @ T)] else []))"
  by (simp add: commit_def)

theorem commit_unknown_type_witness:
  "mutations shop ''cart/unknownMutation'' = None
   \<and> commit (appEnv True) (Str ''cart/unknownMutation'') Undefined Undefined (shop, []) =
       (Return (), shop, [ConsoleError ''[vuex] unknown mutation type: cart/unknownMutation''])"
proof -
  have none: "mutations shop ''cart/unknownMutation'' = None"
    by (simp add: shop_def)
  show ?thesis
    using none commit_unknown_type [OF none, of "appEnv True" Undefined Undefined "[]"]
    by simp
qed

text \<open>
  C4 as stated fails in a production build: the shop has no mutation
  \<open>cart/unknownMutation\<close>, and committing it prints nothing.
\<close>

theorem commit_unknown_type_counterexample:
  "mutations shop ''cart/unknownMutation'' = None
   \<and> commit (appEnv False) (Str ''cart/unknownMutation'') Undefined Undefined (shop, []) =
       (Return (), shop, [])"
  by (simp add: commit_def shop_def)

text \<open>
  C5, as the code has it. For a type string \<open>T\<close> without an entry in the action table,
  \<open>dispatch(T, payload)\<close> returns the plain value \<open>undefined\<close>, not a promise; it throws
  nothing, calls no action subscriber and leaves the store as it was. The diagnostic is
  printed in a development build only.
\<close>

theorem dispatch_unknown_type:
  "actions st T = None \<Longrightarrow>
   dispatch E (Str T) payload (st, evs) =
     (Return Undefined, st,
      evs @ (if DEV E then [ConsoleError (''[vuex] unknown action type: '' @ T)] else []))"
  by (simp add: dispatch_def actionsAt_def)

theorem dispatch_unknown_type_witness:
  "actions shop ''cart/unknownAction'' = None
   \<and> dispatch (appEnv True) (Str ''cart/unknownAction'') Undefined (shop, []) =
       (Return Undefined, shop, [ConsoleError ''[vuex] unknown action type: cart/unknownAction''])"
proof -
  have none: "actions shop ''cart/unknownAction'' = None"
    by (simp add: shop_def)
  show ?thesis
    using none dispatch_unknown_type [OF none, of "appEnv True" Undefined "[]"]
    by simp
qed

text \<open>
  C5 as stated fails: what \<open>dispatch\<close> returns for the unknown type is \<open>undefined\<close> itself,
  which is not an asynchronous result, and in a production build nothing is logged.
\<close>

theorem dispatch_unknown_type_counterexample:
  "actions shop ''cart/unknownAction'' = None
   \<and> dispatch (appEnv False) (Str ''cart/unknownAction'') Undefined (shop, []) =
       (Return Undefined, shop, [])
   \<and> \<not> isPromise Undefined"
  by (simp add: dispatch_def actionsAt_def shop_def)

section \<open>Duplicate getters\<close>

text \<open>
  C9, as the code has it. When the getter table already has an entry under the key,
  \<open>registerGetter\<close> returns normally and leaves the store as it was, so the getter
  registered first stays in the table and the later one is not registered. Nothing is
  thrown; a development build prints a diagnostic.
\<close>

theorem registerGetter_duplicate:
  "wrappedGetters st type = Some g \<Longrightarrow>
   registerGetter E type rawGetter local (st, evs) =
     (Return (), st,
      evs @ (if DEV E then [ConsoleError (''[vuex] duplicate getter key: '' @ type)] else []))"
  by (simp add: registerGetter_def)

theorem registerGetter_duplicate_witness:
  "wrappedGetters shop ''cart/size'' = Some (Wrapped 31 ''cart/'' [''cart''])
   \<and> registerGetter (appEnv True) ''cart/size'' 32 ([], []) (shop, []) =
       (Return (), shop, [ConsoleError ''[vuex] duplicate getter key: cart/size''])"
proof -
  have present: "wrappedGetters shop ''cart/size'' = Some (Wrapped 31 ''cart/'' [''cart''])"
    by (simp add: shop_def)
  show ?thesis
    using present registerGetter_duplicate [OF present, of "appEnv True" 32 "([], [])" "[]"]
    by simp
qed

text \<open>
  C9 as stated fails on "fatal": with the root getter \<open>cart/size\<close> and the cart's getter
  \<open>size\<close> under one key, the constructor still returns normally, having printed the
  diagnostic, and the table holds the root's getter, which was registered first.
\<close>

theorem duplicate_getter_counterexample:
  "fst (createStore (appEnv True) clashOptions) = Return ()
   \<and> snd (snd (createStore (appEnv True) clashOptions)) =
       [ConsoleError ''[vuex] duplicate getter key: cart/size'']
   \<and> wrappedGetters (fst (snd (createStore (appEnv True) clashOptions))) ''cart/size'' =
       Some (Wrapped 32 [] [])"
  by (simp add: clashOptions_def cartModule_def run_defs install_defs create_defs)

section \<open>The empty path\<close>

text \<open>
  C10, as the code has it. On the empty path the parent is the root itself and the key
  is \<open>undefined\<close>, looked up as the name \<open>"undefined"\<close>. So \<open>hasModule([])\<close> and
  \<open>isRegistered([])\<close> return false whenever the root has no child under that name.
\<close>

theorem hasModule_empty_path:
  "root (modules st) = Some m \<Longrightarrow> \<not> hasChild ''undefined'' m \<Longrightarrow>
   hasModule (PathArray []) st = Return False \<and> isRegistered (modules st) [] = Return False"
  by (simp add: hasModule_def isRegistered_def get_def lastKey_def)

theorem hasModule_empty_path_witness:
  "root (modules shop) = Some shopModules \<and> \<not> hasChild ''undefined'' shopModules
   \<and> hasModule (PathArray []) shop = Return False
   \<and> isRegistered (modules shop) [] = Return False"
proof -
  have r: "root (modules shop) = Some shopModules"
    by (simp add: shop_def)
  have h: "\<not> hasChild ''undefined'' shopModules"
    by (simp add: hasChild_def shopModules_def)
  show ?thesis
    using r h hasModule_empty_path [OF r h] by simp
qed

text \<open>
  C10 as stated fails for a store with a module registered under the key \<open>undefined\<close>.
\<close>

theorem hasModule_empty_path_counterexample:
  "fst (createStore (appEnv True) oddOptions) = Return ()
   \<and> hasModule (PathArray []) (fst (snd (createStore (appEnv True) oddOptions))) = Return True"
  by (simp add: oddOptions_def userModule_def hasModule_def isRegistered_def hasChild_def
      run_defs install_defs create_defs)

section \<open>Committing a mutation\<close>

lemma andThen_ReturnE:
  assumes "andThen m f w = (Return y, w'')"
  obtains x w' where "m w = (Return x, w')" and "f x w' = (Return y, w'')"
  using assms by (auto simp: andThen_def split: prod.splits completion.splits)









section \<open>Dispatching an action\<close>

lemma action_calls_append [simp]: "action_calls (xs @ ys) = action_calls xs @ action_calls ys"
  by (induction xs rule: action_calls.induct) simp_all

lemma action_returns_append [simp]: "action_returns (xs @ ys) = action_returns xs @ action_returns ys"
  by (induction xs rule: action_returns.induct) simp_all















section \<open>Installing modules\<close>

lemma tables_grow_refl [simp]: "tables_grow st st"
  by (simp add: tables_grow_def)

lemma tables_grow_modules: "tables_grow st st' \<Longrightarrow> modules st' = modules st"
  by (simp add: tables_grow_def)

lemma tables_grow_mutations:
  "tables_grow st st' \<Longrightarrow> mutations st k = Some entry \<Longrightarrow>
   \<exists>entry'. mutations st' k = Some entry' \<and> set entry \<subseteq> set entry'"
  by (simp add: tables_grow_def)

lemma tables_grow_actions:
  "tables_grow st st' \<Longrightarrow> actions st k = Some entry \<Longrightarrow>
   \<exists>entry'. actions st' k = Some entry' \<and> set entry \<subseteq> set entry'"
  by (simp add: tables_grow_def)

lemma tables_grow_getter:
  "tables_grow st st' \<Longrightarrow> wrappedGetters st k \<noteq> None \<Longrightarrow> wrappedGetters st' k \<noteq> None"
  by (simp add: tables_grow_def)

lemma tables_grow_trans:
  assumes ab: "tables_grow a b" and bc: "tables_grow b c"
  shows "tables_grow a c"
proof -
  have m: "modules c = modules a"
    using tables_grow_modules [OF ab] tables_grow_modules [OF bc] by simp
  have mu: "\<exists>entry'. mutations c k = Some entry' \<and> set entry \<subseteq> set entry'"
    if "mutations a k = Some entry" for k entry
  proof -
    from tables_grow_mutations [OF ab that]
    obtain e1 where e1: "mutations b k = Some e1" "set entry \<subseteq> set e1" by auto
    from tables_grow_mutations [OF bc e1(1)]
    obtain e2 where "mutations c k = Some e2" "set e1 \<subseteq> set e2" by auto
    with e1(2) show ?thesis by auto
  qed
  have ac: "\<exists>entry'. actions c k = Some entry' \<and> set entry \<subseteq> set entry'"
    if "actions a k = Some entry" for k entry
  proof -
    from tables_grow_actions [OF ab that]
    obtain e1 where e1: "actions b k = Some e1" "set entry \<subseteq> set e1" by auto
    from tables_grow_actions [OF bc e1(1)]
    obtain e2 where "actions c k = Some e2" "set e1 \<subseteq> set e2" by auto
    with e1(2) show ?thesis by auto
  qed
  have ge: "wrappedGetters c k \<noteq> None" if "wrappedGetters a k \<noteq> None" for k
    by (rule tables_grow_getter [OF bc tables_grow_getter [OF ab that]])
  show ?thesis
    unfolding tables_grow_def using m mu ac ge by simp
qed

lemma tables_grow_same:
  "modules st' = modules st \<Longrightarrow> mutations st' = mutations st \<Longrightarrow> actions st' = actions st \<Longrightarrow>
   wrappedGetters st' = wrappedGetters st \<Longrightarrow> tables_grow st st'"
  by (simp add: tables_grow_def)

lemma tables_grow_mutation:
  assumes "tables_grow st st'"
    and "case mutations st k of None \<Rightarrow> False | Some entry \<Rightarrow> w \<in> set entry"
  shows "case mutations st' k of None \<Rightarrow> False | Some entry \<Rightarrow> w \<in> set entry"
proof -
  from assms(2) obtain e where e: "mutations st k = Some e" "w \<in> set e"
    by (cases "mutations st k") auto
  from tables_grow_mutations [OF assms(1) e(1)]
  obtain e' where "mutations st' k = Some e'" "set e \<subseteq> set e'" by auto
  with e(2) show ?thesis by auto
qed

lemma tables_grow_action:
  assumes "tables_grow st st'"
    and "case actions st k of None \<Rightarrow> False | Some entry \<Rightarrow> w \<in> set entry"
  shows "case actions st' k of None \<Rightarrow> False | Some entry \<Rightarrow> w \<in> set entry"
proof -
  from assms(2) obtain e where e: "actions st k = Some e" "w \<in> set e"
    by (cases "actions st k") auto
  from tables_grow_actions [OF assms(1) e(1)]
  obtain e' where "actions st' k = Some e'" "set e \<subseteq> set e'" by auto
  with e(2) show ?thesis by auto
qed

lemma registeredAt_grow:
  assumes g: "tables_grow st st'" and r: "registeredAt st N p m"
  shows "registeredAt st' N p m"
proof -
  from r have
    a: "list_all (\<lambda>(K, f). case mutations st (N @ K) of
                     None \<Rightarrow> False | Some entry \<Rightarrow> Wrapped f N p \<in> set entry)
          (raw_mutations (rawModule m))"
    and b: "list_all (\<lambda>(K, a). case actions st (if action_root a then K else N @ K) of
                     None \<Rightarrow> False | Some entry \<Rightarrow> Wrapped (action_handler a) N p \<in> set entry)
          (raw_actions (rawModule m))"
    and c: "list_all (\<lambda>(K, g). wrappedGetters st (N @ K) \<noteq> None) (raw_getters (rawModule m))"
    by (simp_all add: registeredAt_def)
  have a': "list_all (\<lambda>(K, f). case mutations st' (N @ K) of
                     None \<Rightarrow> False | Some entry \<Rightarrow> Wrapped f N p \<in> set entry)
          (raw_mutations (rawModule m))"
    by (rule list.pred_mono_strong [OF a]) (auto intro: tables_grow_mutation [OF g])
  have b': "list_all (\<lambda>(K, a). case actions st' (if action_root a then K else N @ K) of
                     None \<Rightarrow> False | Some entry \<Rightarrow> Wrapped (action_handler a) N p \<in> set entry)
          (raw_actions (rawModule m))"
    by (rule list.pred_mono_strong [OF b]) (auto intro: tables_grow_action [OF g])
  have c': "list_all (\<lambda>(K, g). wrappedGetters st' (N @ K) \<noteq> None) (raw_getters (rawModule m))"
    by (rule list.pred_mono_strong [OF c]) (use tables_grow_getter [OF g] in auto)
  from a' b' c' show ?thesis by (simp add: registeredAt_def)
qed

lemma inStore_apply:
  "inStore m w = (case m (fst (fst w), snd w) of (c, st, evs) \<Rightarrow> (c, (st, snd (fst w)), evs))"
  by (simp add: inStore_def focus_def)

lemma forEach_Cons_Return:
  "f x w = (Return u, w1) \<Longrightarrow> forEach f (x # xs) w = forEach f xs w1"
  by (simp add: andThen_def)

lemma forEach_Cons_Throw:
  "f x w = (Throw e, w1) \<Longrightarrow> forEach f (x # xs) w = (Throw e, w1)"
  by (simp add: andThen_def)

lemma forEach_registerMutation:
  "forEach (\<lambda>(key, f). registerMutation (N @ key) f (N, p)) ms (st, evs) = (c, st', evs') \<Longrightarrow>
   c = Return () \<and> evs' = evs \<and> tables_grow st st'
   \<and> list_all (\<lambda>(K, f). case mutations st' (N @ K) of
                  None \<Rightarrow> False | Some entry \<Rightarrow> Wrapped f N p \<in> set entry) ms"
proof (induction ms arbitrary: st)
  case Nil
  then show ?case by simp
next
  case (Cons kf ms)
  obtain K f where kf: "kf = (K, f)" by (cases kf)
  let ?st1 = "st\<lparr>mutations := (mutations st)(N @ K \<mapsto>
       (case mutations st (N @ K) of None \<Rightarrow> [] | Some entry \<Rightarrow> entry) @ [Wrapped f N p])\<rparr>"
  have one: "(case kf of (key, f) \<Rightarrow> registerMutation (N @ key) f (N, p)) (st, evs)
               = (Return (), ?st1, evs)"
    by (simp add: kf registerMutation_def)
  have rest:
    "forEach (\<lambda>(key, f). registerMutation (N @ key) f (N, p)) ms (?st1, evs) = (c, st', evs')"
    using Cons.prems
      forEach_Cons_Return [where f = "\<lambda>(key, f). registerMutation (N @ key) f (N, p)"
        and x = kf and xs = ms, OF one]
    by (simp only:)
  from Cons.IH [OF rest] have ih: "c = Return ()" "evs' = evs" "tables_grow ?st1 st'"
    "list_all (\<lambda>(K, f). case mutations st' (N @ K) of
                  None \<Rightarrow> False | Some entry \<Rightarrow> Wrapped f N p \<in> set entry) ms"
    by auto
  have g1: "tables_grow st ?st1"
    by (auto simp: tables_grow_def)
  have here: "case mutations ?st1 (N @ K) of None \<Rightarrow> False | Some entry \<Rightarrow> Wrapped f N p \<in> set entry"
    by simp
  from ih(3) here have "case mutations st' (N @ K) of None \<Rightarrow> False | Some entry \<Rightarrow> Wrapped f N p \<in> set entry"
    by (rule tables_grow_mutation)
  with ih g1 kf show ?case
    by (auto intro: tables_grow_trans)
qed

lemma forEach_registerAction:
  "forEach (\<lambda>(key, action). registerAction (if action_root action then key else N @ key)
              (action_handler action) (N, p)) as (st, evs) = (c, st', evs') \<Longrightarrow>
   c = Return () \<and> evs' = evs \<and> tables_grow st st'
   \<and> list_all (\<lambda>(K, a). case actions st' (if action_root a then K else N @ K) of
                  None \<Rightarrow> False | Some entry \<Rightarrow> Wrapped (action_handler a) N p \<in> set entry) as"
proof (induction as arbitrary: st)
  case Nil
  then show ?case by simp
next
  case (Cons ka as)
  obtain K a where ka: "ka = (K, a)" by (cases ka)
  define T where "T = (if action_root a then K else N @ K)"
  let ?st1 = "st\<lparr>actions := (actions st)(T \<mapsto>
       (case actions st T of None \<Rightarrow> [] | Some entry \<Rightarrow> entry) @ [Wrapped (action_handler a) N p])\<rparr>"
  have one: "(case ka of (key, action) \<Rightarrow>
                registerAction (if action_root action then key else N @ key)
                  (action_handler action) (N, p)) (st, evs)
               = (Return (), ?st1, evs)"
    by (simp add: ka registerAction_def T_def)
  have rest:
    "forEach (\<lambda>(key, action). registerAction (if action_root action then key else N @ key)
              (action_handler action) (N, p)) as (?st1, evs) = (c, st', evs')"
    using Cons.prems
      forEach_Cons_Return [where f = "\<lambda>(key, action).
          registerAction (if action_root action then key else N @ key)
            (action_handler action) (N, p)"
        and x = ka and xs = as, OF one]
    by (simp only:)
  from Cons.IH [OF rest] have ih: "c = Return ()" "evs' = evs" "tables_grow ?st1 st'"
    "list_all (\<lambda>(K, a). case actions st' (if action_root a then K else N @ K) of
                  None \<Rightarrow> False | Some entry \<Rightarrow> Wrapped (action_handler a) N p \<in> set entry) as"
    by auto
  have g1: "tables_grow st ?st1"
    by (auto simp: tables_grow_def)
  have here: "case actions ?st1 T of None \<Rightarrow> False | Some entry \<Rightarrow> Wrapped (action_handler a) N p \<in> set entry"
    by simp
  from ih(3) here have "case actions st' T of None \<Rightarrow> False | Some entry \<Rightarrow> Wrapped (action_handler a) N p \<in> set entry"
    by (rule tables_grow_action)
  with ih g1 ka show ?case
    by (auto simp: T_def intro: tables_grow_trans)
qed

lemma registerGetter_grow:
  "registerGetter E type g local (st, evs) = (c, st', evs') \<Longrightarrow>
   c = Return () \<and> tables_grow st st' \<and> wrappedGetters st' type \<noteq> None"
  by (auto simp: registerGetter_def tables_grow_def whenever_def split: if_splits)

lemma forEach_registerGetter:
  "forEach (\<lambda>(key, getter). registerGetter E (N @ key) getter (N, p)) gs (st, evs) = (c, st', evs') \<Longrightarrow>
   c = Return () \<and> tables_grow st st'
   \<and> list_all (\<lambda>(K, g). wrappedGetters st' (N @ K) \<noteq> None) gs"
proof (induction gs arbitrary: st evs)
  case Nil
  then show ?case by simp
next
  case (Cons kg gs)
  obtain K g where kg: "kg = (K, g)" by (cases kg)
  obtain c1 st1 evs1 where one: "registerGetter E (N @ K) g (N, p) (st, evs) = (c1, st1, evs1)"
    by (cases "registerGetter E (N @ K) g (N, p) (st, evs)")
  from registerGetter_grow [OF one] have r1: "c1 = Return ()" "tables_grow st st1"
    "wrappedGetters st1 (N @ K) \<noteq> None" by auto
  have one': "(case kg of (key, getter) \<Rightarrow> registerGetter E (N @ key) getter (N, p)) (st, evs)
               = (Return (), st1, evs1)"
    using one r1(1) by (simp add: kg)
  have rest:
    "forEach (\<lambda>(key, getter). registerGetter E (N @ key) getter (N, p)) gs (st1, evs1) = (c, st', evs')"
    using Cons.prems
      forEach_Cons_Return [where f = "\<lambda>(key, getter). registerGetter E (N @ key) getter (N, p)"
        and x = kg and xs = gs, OF one']
    by (simp only:)
  from Cons.IH [OF rest] have ih: "c = Return ()" "tables_grow st1 st'"
    "list_all (\<lambda>(K, g). wrappedGetters st' (N @ K) \<noteq> None) gs" by auto
  from ih(2) r1(3) have "wrappedGetters st' (N @ K) \<noteq> None"
    by (rule tables_grow_getter)
  with ih r1 kg show ?case
    by (auto intro: tables_grow_trans)
qed

lemma setModuleState_grow:
  "setModuleState E p s w = (c, w') \<Longrightarrow> tables_grow (fst (fst w)) (fst (fst w'))"
  by (auto simp: setModuleState_def withCommit_in_def andThen_def whenever_def lift_def
        Let_def tables_grow_def
      split: completion.splits prod.splits if_splits)


lemma get_reduce_None: "get_reduce None p \<noteq> Return (Some m)"
  by (cases p) simp_all

lemma get_reduce_Cons_Some:
  assumes "get_reduce (Some r) (key # rest) = Return (Some m)"
  obtains c where "getChild key r = Some c" and "get_reduce (Some c) rest = Return (Some m)"
  using assms get_reduce_None by (cases "getChild key r") auto

lemma get_reduce_append:
  "get_reduce (Some r) p = Return (Some m) \<Longrightarrow>
   get_reduce (Some r) (p @ q) = get_reduce (Some m) q"
proof (induction p arbitrary: r)
  case Nil
  then show ?case by simp
next
  case (Cons key rest)
  from Cons.prems obtain c where c: "getChild key r = Some c"
    "get_reduce (Some c) rest = Return (Some m)"
    by (rule get_reduce_Cons_Some)
  from Cons.IH [OF c(2)] c(1) show ?case by simp
qed

lemma getNamespace_reduce_along:
  "get_reduce (Some r) p = Return (Some m) \<Longrightarrow>
   getNamespace_reduce (Some r) ns p = Return (ns @ namespace_along r p)"
proof (induction p arbitrary: r ns)
  case Nil
  then show ?case by simp
next
  case (Cons key rest)
  from Cons.prems obtain c where c: "getChild key r = Some c"
    "get_reduce (Some c) rest = Return (Some m)"
    by (rule get_reduce_Cons_Some)
  from Cons.IH [OF c(2)] c(1) show ?case by simp
qed

lemma stateStep_grow:
  "whenever b (setModuleState E p s) w = (cc, w1) \<Longrightarrow> tables_grow (fst (fst w)) (fst (fst w1))"
  by (cases b) (auto dest: setModuleState_grow)

lemma installModule_ReturnE:
  assumes run: "installModule E p (Module raw rt s cs) hot w = (Return (), w')"
  obtains N wG where
    "getNamespace (modules (fst (fst w))) p = Return N"
    "tables_grow (fst (fst w)) (fst (fst wG))"
    "registeredAt (fst (fst wG)) N p (Module raw rt s cs)"
    "installChildren E p cs hot wG = (Return (), w')"
proof -
  from run [unfolded installModule.simps] obtain N w0 where
    ns: "lift (getNamespace (modules (fst (fst w))) p) w = (Return N, w0)"
    and r0: "andThen
             (whenever (namespaced (Module raw rt s cs))
                (\<lambda>w'. andThen
                   (whenever (modulesNamespaceMap (fst (fst w')) N \<noteq> None \<and> DEV E)
                      (emit (ConsoleError (''[vuex] duplicate namespace '' @ N
                         @ '' for the namespaced module '' @ join ''/'' p))))
                   (\<lambda>_. inStore (modify (\<lambda>st. st\<lparr>modulesNamespaceMap :=
                           (modulesNamespaceMap st)(N \<mapsto> p)\<rparr>))) w'))
          (\<lambda>_. andThen
             (whenever (p \<noteq> [] \<and> \<not> hot) (setModuleState E p (state (Module raw rt s cs))))
          (\<lambda>_. andThen
             (inStore (forEach
                (\<lambda>(key, mutation). registerMutation (N @ key) mutation (N, p))
                (raw_mutations raw)))
          (\<lambda>_. andThen
             (inStore (forEach
                (\<lambda>(key, action).
                   registerAction (if action_root action then key else N @ key)
                     (action_handler action) (N, p))
                (raw_actions raw)))
          (\<lambda>_. andThen
             (inStore (forEach
                (\<lambda>(key, getter). registerGetter E (N @ key) getter (N, p))
                (raw_getters raw)))
          (\<lambda>_. installChildren E p cs hot))))) w0 = (Return (), w')"
    by (rule andThen_ReturnE)
  from ns have N: "getNamespace (modules (fst (fst w))) p = Return N" and w0: "w0 = w"
    by (auto simp: lift_def)
  from r0 obtain uA wA uB wB uC wC uD wD uG wG where
    A: "whenever (namespaced (Module raw rt s cs))
                (\<lambda>w'. andThen
                   (whenever (modulesNamespaceMap (fst (fst w')) N \<noteq> None \<and> DEV E)
                      (emit (ConsoleError (''[vuex] duplicate namespace '' @ N
                         @ '' for the namespaced module '' @ join ''/'' p))))
                   (\<lambda>_. inStore (modify (\<lambda>st. st\<lparr>modulesNamespaceMap :=
                           (modulesNamespaceMap st)(N \<mapsto> p)\<rparr>))) w') w0 = (Return uA, wA)"
    and B: "whenever (p \<noteq> [] \<and> \<not> hot) (setModuleState E p (state (Module raw rt s cs))) wA
              = (Return uB, wB)"
    and C: "inStore (forEach
                (\<lambda>(key, mutation). registerMutation (N @ key) mutation (N, p))
                (raw_mutations raw)) wB = (Return uC, wC)"
    and D: "inStore (forEach
                (\<lambda>(key, action).
                   registerAction (if action_root action then key else N @ key)
                     (action_handler action) (N, p))
                (raw_actions raw)) wC = (Return uD, wD)"
    and G: "inStore (forEach
                (\<lambda>(key, getter). registerGetter E (N @ key) getter (N, p))
                (raw_getters raw)) wD = (Return uG, wG)"
    and H: "installChildren E p cs hot wG = (Return (), w')"
    by (elim andThen_ReturnE)
  have gA: "tables_grow (fst (fst w)) (fst (fst wA))"
  proof (cases "namespaced (Module raw rt s cs)")
    case True
    with A w0 show ?thesis
      by (auto simp: andThen_def inStore_apply tables_grow_def whenever_def split: if_splits)
  next
    case False
    with A w0 show ?thesis by simp
  qed
  have gB: "tables_grow (fst (fst wA)) (fst (fst wB))"
    using B by (rule stateStep_grow)
  obtain cC stC evC where fC: "forEach
                (\<lambda>(key, mutation). registerMutation (N @ key) mutation (N, p))
                (raw_mutations raw) (fst (fst wB), snd wB) = (cC, stC, evC)"
    using prod_cases3 by blast
  have sC: "fst (fst wC) = stC"
    using C fC by (auto simp: inStore_apply)
  note FC = forEach_registerMutation [OF fC, folded sC]
  have gC: "tables_grow (fst (fst wB)) (fst (fst wC))"
    using FC by (elim conjE)
  have rC: "list_all (\<lambda>(K, f). case mutations (fst (fst wC)) (N @ K) of
                  None \<Rightarrow> False | Some entry \<Rightarrow> Wrapped f N p \<in> set entry) (raw_mutations raw)"
    using FC by (elim conjE)
  obtain cD stD evD where fD: "forEach
                (\<lambda>(key, action).
                   registerAction (if action_root action then key else N @ key)
                     (action_handler action) (N, p))
                (raw_actions raw) (fst (fst wC), snd wC) = (cD, stD, evD)"
    using prod_cases3 by blast
  have sD: "fst (fst wD) = stD"
    using D fD by (auto simp: inStore_apply)
  note FD = forEach_registerAction [OF fD, folded sD]
  have gD: "tables_grow (fst (fst wC)) (fst (fst wD))"
    using FD by (elim conjE)
  have rD: "list_all (\<lambda>(K, a). case actions (fst (fst wD)) (if action_root a then K else N @ K) of
                  None \<Rightarrow> False | Some entry \<Rightarrow> Wrapped (action_handler a) N p \<in> set entry)
               (raw_actions raw)"
    using FD by (elim conjE)
  obtain cG stG evG where fG: "forEach
                (\<lambda>(key, getter). registerGetter E (N @ key) getter (N, p))
                (raw_getters raw) (fst (fst wD), snd wD) = (cG, stG, evG)"
    using prod_cases3 by blast
  have sG: "fst (fst wG) = stG"
    using G fG by (auto simp: inStore_apply)
  note FG = forEach_registerGetter [OF fG, folded sG]
  have gG: "tables_grow (fst (fst wD)) (fst (fst wG))"
    using FG by (elim conjE)
  have rG: "list_all (\<lambda>(K, g). wrappedGetters (fst (fst wG)) (N @ K) \<noteq> None) (raw_getters raw)"
    using FG by (elim conjE)
  have rC': "list_all (\<lambda>(K, f). case mutations (fst (fst wG)) (N @ K) of
                  None \<Rightarrow> False | Some entry \<Rightarrow> Wrapped f N p \<in> set entry) (raw_mutations raw)"
    by (rule list.pred_mono_strong [OF rC])
       (use tables_grow_mutation [OF tables_grow_trans [OF gD gG]] in auto)
  have rD': "list_all (\<lambda>(K, a). case actions (fst (fst wG)) (if action_root a then K else N @ K) of
                  None \<Rightarrow> False | Some entry \<Rightarrow> Wrapped (action_handler a) N p \<in> set entry)
               (raw_actions raw)"
    by (rule list.pred_mono_strong [OF rD]) (use tables_grow_action [OF gG] in auto)
  have reg: "registeredAt (fst (fst wG)) N p (Module raw rt s cs)"
    using rC' rD' rG by (simp add: registeredAt_def)
  have grow: "tables_grow (fst (fst w)) (fst (fst wG))"
    using gA gB gC gD gG by (blast intro: tables_grow_trans)
  from N grow reg H show ?thesis by (rule that)
qed

lemma installModule_registers:
  "installModule E p m hot w = (Return (), w') \<Longrightarrow>
     tables_grow (fst (fst w)) (fst (fst w'))
     \<and> (\<forall>r q m'. root (modules (fst (fst w))) = Some r \<longrightarrow>
           get_reduce (Some r) p = Return (Some m) \<longrightarrow>
           get_reduce (Some m) q = Return (Some m') \<longrightarrow>
           registeredAt (fst (fst w')) (namespace_along r (p @ q)) (p @ q) m')"
  and installChildren_registers:
  "installChildren E p cs hot w = (Return (), w') \<Longrightarrow>
     tables_grow (fst (fst w)) (fst (fst w'))
     \<and> (\<forall>r key c q m'. root (modules (fst (fst w))) = Some r \<longrightarrow>
           map_of cs key = Some c \<longrightarrow>
           get_reduce (Some r) (p @ [key]) = Return (Some c) \<longrightarrow>
           get_reduce (Some c) q = Return (Some m') \<longrightarrow>
           registeredAt (fst (fst w')) (namespace_along r (p @ key # q)) (p @ key # q) m')"
proof (induction E p m hot and E p cs hot arbitrary: w w' and w w'
       rule: installModule_installChildren.induct)
  case (1 E p raw rt s cs hot)
  let ?m = "Module raw rt s cs"
  from "1.prems" obtain N wG where
    N: "getNamespace (modules (fst (fst w))) p = Return N"
    and grow: "tables_grow (fst (fst w)) (fst (fst wG))"
    and reg: "registeredAt (fst (fst wG)) N p ?m"
    and kids: "installChildren E p cs hot wG = (Return (), w')"
    by (rule installModule_ReturnE)
  from "1.IH" [OF kids] have
    growK: "tables_grow (fst (fst wG)) (fst (fst w'))"
    and regK: "\<And>r key c q m'. root (modules (fst (fst wG))) = Some r \<Longrightarrow>
           map_of cs key = Some c \<Longrightarrow>
           get_reduce (Some r) (p @ [key]) = Return (Some c) \<Longrightarrow>
           get_reduce (Some c) q = Return (Some m') \<Longrightarrow>
           registeredAt (fst (fst w')) (namespace_along r (p @ key # q)) (p @ key # q) m'"
    by blast+
  have all: "tables_grow (fst (fst w)) (fst (fst w'))"
    using grow growK by (rule tables_grow_trans)
  have "registeredAt (fst (fst w')) (namespace_along r (p @ q)) (p @ q) m'"
    if r: "root (modules (fst (fst w))) = Some r"
      and at: "get_reduce (Some r) p = Return (Some ?m)"
      and below: "get_reduce (Some ?m) q = Return (Some m')"
    for r q m'
  proof (cases q)
    case Nil
    with below have m': "m' = ?m" by simp
    from getNamespace_reduce_along [OF at, of "[]"] N r have "N = namespace_along r p"
      by (simp add: getNamespace_def)
    with reg m' Nil have "registeredAt (fst (fst wG)) (namespace_along r (p @ q)) (p @ q) m'"
      by simp
    with growK show ?thesis by (rule registeredAt_grow)
  next
    case (Cons key q')
    from below [unfolded Cons] obtain c where c: "getChild key ?m = Some c"
      and c': "get_reduce (Some c) q' = Return (Some m')"
      by (rule get_reduce_Cons_Some)
    have rG: "root (modules (fst (fst wG))) = Some r"
      using r tables_grow_modules [OF grow] by simp
    have "get_reduce (Some r) (p @ [key]) = Return (Some c)"
      using get_reduce_append [OF at, of "[key]"] c by simp
    from regK [OF rG _ this c'] c Cons show ?thesis
      by (simp add: getChild_def)
  qed
  with all show ?case by blast
next
  case (2 E p hot)
  then show ?case by simp
next
  case (3 E p key child rest hot)
  from "3.prems" obtain u w1 where
    one: "installModule E (p @ [key]) child hot w = (Return u, w1)"
    and more: "installChildren E p rest hot w1 = (Return (), w')"
    by (auto elim: andThen_ReturnE)
  from "3.IH"(1) [of w w1] one have
    g1: "tables_grow (fst (fst w)) (fst (fst w1))"
    and r1: "\<And>r q m'. root (modules (fst (fst w))) = Some r \<Longrightarrow>
           get_reduce (Some r) (p @ [key]) = Return (Some child) \<Longrightarrow>
           get_reduce (Some child) q = Return (Some m') \<Longrightarrow>
           registeredAt (fst (fst w1)) (namespace_along r ((p @ [key]) @ q)) ((p @ [key]) @ q) m'"
    by (cases u; blast)+
  from "3.IH"(2) [OF more] have
    g2: "tables_grow (fst (fst w1)) (fst (fst w'))"
    and r2: "\<And>r k c q m'. root (modules (fst (fst w1))) = Some r \<Longrightarrow>
           map_of rest k = Some c \<Longrightarrow>
           get_reduce (Some r) (p @ [k]) = Return (Some c) \<Longrightarrow>
           get_reduce (Some c) q = Return (Some m') \<Longrightarrow>
           registeredAt (fst (fst w')) (namespace_along r (p @ k # q)) (p @ k # q) m'"
    by blast+
  have all: "tables_grow (fst (fst w)) (fst (fst w'))"
    using g1 g2 by (rule tables_grow_trans)
  have "registeredAt (fst (fst w')) (namespace_along r (p @ k # q)) (p @ k # q) m'"
    if r: "root (modules (fst (fst w))) = Some r"
      and k: "map_of ((key, child) # rest) k = Some c"
      and at: "get_reduce (Some r) (p @ [k]) = Return (Some c)"
      and below: "get_reduce (Some c) q = Return (Some m')"
    for r k c q m'
  proof (cases "k = key")
    case True
    with k have "c = child" by simp
    with r1 [OF r _ _, of q m'] at below True
    have "registeredAt (fst (fst w1)) (namespace_along r (p @ k # q)) (p @ k # q) m'"
      by simp
    with g2 show ?thesis by (rule registeredAt_grow)
  next
    case False
    with k have k': "map_of rest k = Some c" by simp
    have "root (modules (fst (fst w1))) = Some r"
      using r tables_grow_modules [OF g1] by simp
    from r2 [OF this k' at below] show ?thesis .
  qed
  with all show ?case by blast
qed


lemma andThen_Return: "m w = (Return x, w') \<Longrightarrow> andThen m f w = f x w'"
  by (simp add: andThen_def)

lemma installModule_hot:
  assumes N: "getNamespace (modules (fst (fst w))) p = Return N"
  obtains wG where "tables_grow (fst (fst w)) (fst (fst wG))"
    and "installModule E p (Module raw rt s cs) True w = installChildren E p cs True wG"
proof -
  let ?A = "whenever (namespaced (Module raw rt s cs))
                (\<lambda>w'. andThen
                   (whenever (modulesNamespaceMap (fst (fst w')) N \<noteq> None \<and> DEV E)
                      (emit (ConsoleError (''[vuex] duplicate namespace '' @ N
                         @ '' for the namespaced module '' @ join ''/'' p))))
                   (\<lambda>_. inStore (modify (\<lambda>st. st\<lparr>modulesNamespaceMap :=
                           (modulesNamespaceMap st)(N \<mapsto> p)\<rparr>))) w')"
  let ?C = "forEach (\<lambda>(key, mutation). registerMutation (N @ key) mutation (N, p))
              (raw_mutations raw)"
  let ?D = "forEach (\<lambda>(key, action).
                   registerAction (if action_root action then key else N @ key)
                     (action_handler action) (N, p))
              (raw_actions raw)"
  let ?G = "forEach (\<lambda>(key, getter). registerGetter E (N @ key) getter (N, p))
              (raw_getters raw)"
  obtain wA where A: "?A w = (Return (), wA)"
    by (cases "namespaced (Module raw rt s cs)";
        cases "modulesNamespaceMap (fst (fst w)) N \<noteq> None \<and> DEV E")
       (auto simp: andThen_def inStore_apply)
  have gA: "tables_grow (fst (fst w)) (fst (fst wA))"
    using A
    by (cases "namespaced (Module raw rt s cs)";
        cases "modulesNamespaceMap (fst (fst w)) N \<noteq> None \<and> DEV E")
       (auto simp: andThen_def inStore_apply tables_grow_def)
  obtain cC stC evC where fC: "?C (fst (fst wA), snd wA) = (cC, stC, evC)"
    using prod_cases3 by blast
  note FC = forEach_registerMutation [OF fC]
  define wC where "wC = ((stC, snd (fst wA)), evC)"
  have C: "inStore ?C wA = (Return (), wC)"
    using fC FC by (simp add: inStore_apply wC_def)
  have gC: "tables_grow (fst (fst wA)) (fst (fst wC))"
    using FC by (simp add: wC_def)
  obtain cD stD evD where fD: "?D (fst (fst wC), snd wC) = (cD, stD, evD)"
    using prod_cases3 by blast
  note FD = forEach_registerAction [OF fD]
  define wD where "wD = ((stD, snd (fst wC)), evD)"
  have D: "inStore ?D wC = (Return (), wD)"
    using fD FD by (simp add: inStore_apply wD_def)
  have gD: "tables_grow (fst (fst wC)) (fst (fst wD))"
    using FD by (simp add: wD_def)
  obtain cG stG evG where fG: "?G (fst (fst wD), snd wD) = (cG, stG, evG)"
    using prod_cases3 by blast
  note FG = forEach_registerGetter [OF fG]
  define wG where "wG = ((stG, snd (fst wD)), evG)"
  have G: "inStore ?G wD = (Return (), wG)"
    using fG FG by (simp add: inStore_apply wG_def)
  have gG: "tables_grow (fst (fst wD)) (fst (fst wG))"
    using FG by (simp add: wG_def)
  have grow: "tables_grow (fst (fst w)) (fst (fst wG))"
    using gA gC gD gG by (blast intro: tables_grow_trans)
  have "installModule E p (Module raw rt s cs) True w = installChildren E p cs True wG"
    unfolding installModule.simps
    by (simp only: N andThen_lift_Return
          andThen_Return [where m = "?A" and w = w, OF A]
          andThen_Return [where m = "inStore ?C" and w = wA, OF C]
          andThen_Return [where m = "inStore ?D" and w = wC, OF D]
          andThen_Return [where m = "inStore ?G" and w = wD, OF G]
          simp_thms whenever_simps andThen_ret)
  with grow show ?thesis by (rule that)
qed

lemma getNamespace_at:
  "root c = Some r \<Longrightarrow> get_reduce (Some r) p = Return (Some m) \<Longrightarrow>
   getNamespace c p = Return (namespace_along r p)"
  using getNamespace_reduce_along [of r p m "[]"] by (simp add: getNamespace_def)

lemma installModule_hot_returns:
  "keys_unique m \<Longrightarrow> root (modules (fst (fst w))) = Some r \<Longrightarrow>
   get_reduce (Some r) p = Return (Some m) \<Longrightarrow>
   \<exists>w'. installModule E p m True w = (Return (), w')"
  and installChildren_hot_returns:
  "children_keys_unique cs \<Longrightarrow> root (modules (fst (fst w))) = Some r \<Longrightarrow>
   (\<forall>(key, c) \<in> set cs. get_reduce (Some r) (p @ [key]) = Return (Some c)) \<Longrightarrow>
   \<exists>w'. installChildren E p cs True w = (Return (), w')"
proof (induction m and cs arbitrary: w p and w p rule: keys_unique_children_keys_unique.induct)
  case (1 raw rt s cs)
  from getNamespace_at [OF "1.prems"(2,3)]
  obtain wG where grow: "tables_grow (fst (fst w)) (fst (fst wG))"
    and eq: "installModule E p (Module raw rt s cs) True w = installChildren E p cs True wG"
    by (rule installModule_hot)
  have rG: "root (modules (fst (fst wG))) = Some r"
    using "1.prems"(2) tables_grow_modules [OF grow] by simp
  have kids: "\<forall>(key, c) \<in> set cs. get_reduce (Some r) (p @ [key]) = Return (Some c)"
  proof (clarify)
    fix key c assume "(key, c) \<in> set cs"
    with "1.prems"(1) have "map_of cs key = Some c" by simp
    then show "get_reduce (Some r) (p @ [key]) = Return (Some c)"
      using get_reduce_append [OF "1.prems"(3), of "[key]"] by (simp add: getChild_def)
  qed
  have kk: "children_keys_unique cs"
    using "1.prems"(1) by simp
  from "1.IH" [OF kk rG kids] eq show ?case by simp
next
  case 2
  then show ?case by simp
next
  case (3 key c rest)
  from "3.prems" have at: "get_reduce (Some r) (p @ [key]) = Return (Some c)" by simp
  have kc: "keys_unique c"
    using "3.prems"(1) by simp
  from "3.IH"(1) [OF kc "3.prems"(2) at]
  obtain w1 where one: "installModule E (p @ [key]) c True w = (Return (), w1)" by blast
  from installModule_registers [OF one] have "tables_grow (fst (fst w)) (fst (fst w1))" by simp
  then have r1: "root (modules (fst (fst w1))) = Some r"
    using "3.prems"(2) tables_grow_modules by simp
  have kr: "children_keys_unique rest"
    using "3.prems"(1) by simp
  have others: "\<forall>(key, c) \<in> set rest. get_reduce (Some r) (p @ [key]) = Return (Some c)"
    using "3.prems"(3) by simp
  from "3.IH"(2) [OF kr r1 others]
  obtain w' where "installChildren E p rest True w1 = (Return (), w')" by blast
  with one show ?case by (simp add: andThen_Return)
qed

text \<open>
  C2. Let \<open>m\<close> be the module at path \<open>p\<close> of the tree with root \<open>r\<close>, and \<open>m'\<close> the module
  at path \<open>q\<close> below it. The namespace that \<open>getNamespace\<close> computes for \<open>p @ q\<close> is the
  concatenation of \<open>key + '/'\<close> over the namespaced modules along that path. Whenever
  \<open>installModule\<close> on \<open>m\<close> returns, the store it leaves has every key \<open>K\<close> that \<open>m'\<close>
  declares registered under that namespace \<open>N\<close>: each mutation under \<open>N + K\<close> with this
  module's closure in the handler list, each action likewise, except that an action
  declared with \<open>root: true\<close> is under its bare key \<open>K\<close>, and each getter key \<open>N + K\<close>
  present in the getter table. A hot installation, which is how \<open>resetStore\<close> rebuilds the
  tables, always returns.
\<close>

theorem installModule_registers_every_key:
  assumes r: "root (modules st) = Some r"
    and at: "get (modules st) p = Return (Some m)"
    and below: "get_reduce (Some m) q = Return (Some m')"
  shows "getNamespace (modules st) (p @ q) = Return (namespace_along r (p @ q))
       \<and> (\<forall>st' rootState' evs'.
            installModule E p m hot ((st, rootState), evs) = (Return (), (st', rootState'), evs')
            \<longrightarrow> registeredAt st' (namespace_along r (p @ q)) (p @ q) m')
       \<and> (hot \<and> keys_unique m \<longrightarrow>
            (\<exists>w'. installModule E p m hot ((st, rootState), evs) = (Return (), w')))"
proof -
  from at r have at': "get_reduce (Some r) p = Return (Some m)"
    by (simp add: get_def)
  have deep: "get_reduce (Some r) (p @ q) = Return (Some m')"
    using get_reduce_append [OF at'] below by simp
  have ns: "getNamespace (modules st) (p @ q) = Return (namespace_along r (p @ q))"
    using r deep by (rule getNamespace_at)
  have reg: "registeredAt st' (namespace_along r (p @ q)) (p @ q) m'"
    if "installModule E p m hot ((st, rootState), evs) = (Return (), (st', rootState'), evs')"
    for st' rootState' evs'
    using installModule_registers [OF that] r at' below by simp
  have tot: "\<exists>w'. installModule E p m hot ((st, rootState), evs) = (Return (), w')"
    if "hot" "keys_unique m"
    using installModule_hot_returns [of m "((st, rootState), evs)" r p E] that r at' by simp
  from ns reg tot show ?thesis by blast
qed

theorem installModule_registers_every_key_witness:
  "root (modules clearedShop) = Some shopModules
   \<and> get (modules clearedShop) [] = Return (Some shopModules)
   \<and> get_reduce (Some shopModules) [''cart''] = Return (Some shopCart)
   \<and> installModule (appEnv True) [] shopModules True ((clearedShop, Store_state shop), []) =
       (Return (), (shop, Store_state shop), [])
   \<and> getNamespace (modules clearedShop) [''cart''] = Return ''cart/''
   \<and> registeredAt shop ''cart/'' [''cart''] shopCart
   \<and> (\<exists>w'. installModule (appEnv True) [] shopModules True
              ((clearedShop, Store_state shop), []) = (Return (), w'))"
proof -
  have r: "root (modules clearedShop) = Some shopModules"
    by (simp add: clearedShop_def shop_def)
  have at: "get (modules clearedShop) [] = Return (Some shopModules)"
    by (simp add: get_def clearedShop_def shop_def)
  have below: "get_reduce (Some shopModules) [''cart''] = Return (Some shopCart)"
    by (simp add: shopModules_def getChild_def)
  have ns: "namespace_along shopModules [''cart''] = ''cart/''"
    by (simp add: shopModules_def shopCart_def cartModule_def getChild_def namespaced_def)
  have ku: "keys_unique shopModules"
    by (simp add: shopModules_def shopCart_def)
  have run: "installModule (appEnv True) [] shopModules True
               ((clearedShop, Store_state shop), []) = (Return (), (shop, Store_state shop), [])"
    by (simp add: clearedShop_def shop_def shopModules_def shopCart_def shopRoot_def
        cartModule_def userModule_def Store_state_def run_defs install_defs)
  from installModule_registers_every_key
         [OF r at below, of "appEnv True" True "Store_state shop" "[]"]
  have ns': "getNamespace (modules clearedShop) ([] @ [''cart''])
               = Return (namespace_along shopModules ([] @ [''cart'']))"
    and reg: "\<forall>st' rootState' evs'.
            installModule (appEnv True) [] shopModules True ((clearedShop, Store_state shop), [])
              = (Return (), (st', rootState'), evs')
            \<longrightarrow> registeredAt st' (namespace_along shopModules ([] @ [''cart'']))
                  ([] @ [''cart'']) shopCart"
    and tot: "True \<and> keys_unique shopModules \<longrightarrow>
            (\<exists>w'. installModule (appEnv True) [] shopModules True
                    ((clearedShop, Store_state shop), []) = (Return (), w'))"
    by blast+
  from reg run have "registeredAt shop (namespace_along shopModules ([] @ [''cart'']))
                       ([] @ [''cart'']) shopCart"
    by blast
  with ns have reg': "registeredAt shop ''cart/'' [''cart''] shopCart" by simp
  from ns' ns have ns'': "getNamespace (modules clearedShop) [''cart''] = Return ''cart/''"
    by simp
  from tot ku have tot': "\<exists>w'. installModule (appEnv True) [] shopModules True
              ((clearedShop, Store_state shop), []) = (Return (), w')"
    by blast
  from r at below run ns'' reg' tot' show ?thesis by (intro conjI)
qed

section \<open>Subscribing\<close>

text \<open>
  What holds of the two subscriber lists: \<open>genericSubscribe\<close> adds nothing that is
  already in the list, so a function passed to \<open>subscribe\<close> twice, or one hooks object
  passed to \<open>subscribeAction\<close> twice, is in the list once; the lists stay free of
  repetitions, and on such a list a second call of the returned closure finds nothing to
  remove.
\<close>

lemma genericSubscribe_twice:
  "genericSubscribe E fn (genericSubscribe E fn subs options) options' =
   genericSubscribe E fn subs options"
  by (simp add: genericSubscribe_def)

lemma subscribe_twice:
  "subscribers (fst (snd (andThen (subscribe E fn options) (\<lambda>_. subscribe E fn options') (st, evs))))
   = subscribers (fst (snd (subscribe E fn options (st, evs))))"
  by (simp add: subscribe_def andThen_def genericSubscribe_twice)

lemma subscribeAction_object_twice:
  "actionSubscribers (fst (snd (andThen (subscribeAction E (HooksObject n h) options)
      (\<lambda>_. subscribeAction E (HooksObject n h) options') (st, evs))))
   = actionSubscribers (fst (snd (subscribeAction E (HooksObject n h) options (st, evs))))"
  by (simp add: subscribeAction_def andThen_def genericSubscribe_twice)

lemma genericSubscribe_distinct:
  "distinct subs \<Longrightarrow> distinct (genericSubscribe E fn subs options)"
  by (simp add: genericSubscribe_def)

lemma genericUnsubscribe_twice:
  "distinct subs \<Longrightarrow>
   genericUnsubscribe fn (genericUnsubscribe fn subs) = genericUnsubscribe fn subs"
  by (simp add: genericUnsubscribe_def)

text \<open>
  C8 fails for \<open>subscribeAction\<close> with a function. Each call wraps the function in a new
  object \<open>{ before: fn }\<close>, which \<open>indexOf\<close> has never seen: after the same function 50
  is passed twice, the list holds two objects and the function is called twice before
  every action.
\<close>

theorem subscribeAction_same_function_twice:
  "actionSubscribers (fst (snd (andThen (subscribeAction (appEnv True) (Function 50) Undefined)
      (\<lambda>_. subscribeAction (appEnv True) (Function 50) Undefined) (shop, [])))) =
     [Allocated 0, Allocated 1]
   \<and> subscribersWith Before (fst (snd (andThen (subscribeAction (appEnv True) (Function 50) Undefined)
      (\<lambda>_. subscribeAction (appEnv True) (Function 50) Undefined) (shop, [])))) = [50, 50]"
  by (simp add: subscribeAction_def genericSubscribe_def option_set_def subscribersWith_def
      List.map_filter_simps shop_def run_defs)

section \<open>Unregistering a module present at construction\<close>

text \<open>
  C6 fails on the state. The shop's module \<open>cart\<close> was present at construction.
  \<open>unregisterModule('cart')\<close> returns normally and the module is still registered, since
  \<open>ModuleCollection.unregister\<close> refuses to remove it; but \<open>Store.unregisterModule\<close> goes
  on to delete \<open>state.cart\<close> all the same, and the reset that follows is a hot one, which
  does not attach module states again.
\<close>

theorem unregisterModule_static_module:
  "hasModule (PathString ''cart'') shop = Return True
   \<and> Store_state shop =
        Obj [(''count'', Number 0), (''cart'', Obj [(''items'', Arr [])]),
             (''user'', Obj [(''name'', Str ''ann'')])]
   \<and> fst (unregisterModule (appEnv True) (PathString ''cart'') (shop, [])) = Return ()
   \<and> hasModule (PathString ''cart'')
        (fst (snd (unregisterModule (appEnv True) (PathString ''cart'') (shop, [])))) = Return True
   \<and> Store_state (fst (snd (unregisterModule (appEnv True) (PathString ''cart'') (shop, [])))) =
        Obj [(''count'', Number 0), (''user'', Obj [(''name'', Str ''ann'')])]"
  by (simp add: unregisterModule_def unregister_def resetStore_def hasModule_def isRegistered_def
      hasChild_def Store_state_def shop_def shopModules_def shopCart_def shopRoot_def cartModule_def
      userModule_def run_defs install_defs)

end
